theory Spec2Isabelle
  imports Complex_Main
begin

section \<open>Python values and failures\<close>

text \<open>
  Floats of the source are read as real numbers; exceptions of the source are values
  of \<open>py_error\<close>, returned on the left of a sum.
\<close>

datatype py_error =
  IndexError
  | KeyError
  | ValueError
  | ZeroDivisionError
  | NetworkXNoPath
  | NodeNotFound

text \<open>Python's \<open>int(x)\<close> on a float truncates towards zero.\<close>

definition py_int :: "real \<Rightarrow> int" where
  "py_int x = (if 0 \<le> x then \<lfloor>x\<rfloor> else \<lceil>x\<rceil>)"

text \<open>\<open>xs[i]\<close>: an index below zero is taken from the end of the list, and an index
  outside \<open>[-len, len)\<close> raises IndexError.\<close>

definition py_get :: "'a list \<Rightarrow> int \<Rightarrow> py_error + 'a" where
  "py_get xs i =
     (if 0 \<le> i \<and> i < int (length xs) then Inr (xs ! nat i)
      else if i < 0 \<and> - int (length xs) \<le> i then Inr (xs ! nat (int (length xs) + i))
      else Inl IndexError)"

text \<open>\<open>xs[:k]\<close>: a negative bound drops that many elements from the end.\<close>

definition py_take :: "int \<Rightarrow> 'a list \<Rightarrow> 'a list" where
  "py_take k xs = (if 0 \<le> k then take (nat k) xs else take (length xs - nat (- k)) xs)"

text \<open>\<open>np.mean\<close> of a list of floats; the source uses its value on non-empty lists only.\<close>

definition np_mean :: "real list \<Rightarrow> real" where
  "np_mean xs = sum_list xs / real (length xs)"

text \<open>Decimal rendering of a natural number, as an f-string prints a list length.\<close>

fun str_nat :: "nat \<Rightarrow> string" where
  "str_nat n = (if n < 10 then [''0123456789'' ! n]
                else str_nat (n div 10) @ [''0123456789'' ! (n mod 10)])"

section \<open>CVaR of a scenario risk list (cvar\_routing.py, \_calculate\_cvar)\<close>

definition cvar_var_index :: "real list \<Rightarrow> real \<Rightarrow> int" where
  "cvar_var_index risks alpha = py_int (alpha * real (length (sort risks)))"

definition cvar_var :: "real list \<Rightarrow> real \<Rightarrow> py_error + real" where
  "cvar_var risks alpha =
     (let sorted_risks = sort risks;
          var_index = cvar_var_index risks alpha
      in if var_index < int (length sorted_risks)
         then py_get sorted_risks var_index
         else py_get sorted_risks (- 1))"

definition tail_risks :: "real list \<Rightarrow> real \<Rightarrow> real list" where
  "tail_risks risks var = filter (\<lambda>r. r \<ge> var) (sort risks)"

definition calculate_cvar :: "real list \<Rightarrow> real \<Rightarrow> py_error + real" where
  "calculate_cvar risks alpha =
     (case cvar_var risks alpha of
        Inl e \<Rightarrow> Inl e
      | Inr var \<Rightarrow>
          Inr (if tail_risks risks var \<noteq> [] then np_mean (tail_risks risks var) else var))"

definition calculate_survival_probability :: "real \<Rightarrow> real \<Rightarrow> real" where
  "calculate_survival_probability risk_score lambda_cal = exp (- lambda_cal * risk_score)"

section \<open>The attributed graph (a networkx DiGraph)\<close>

text \<open>
  A node carries a bag of float attributes (\<open>y\<close> is the latitude, \<open>x\<close> the longitude).
  An edge carries a bag of attributes: the float-valued ones the solvers read and write
  (\<open>distance_km\<close>, \<open>travel_time_hours\<close>, \<open>detection_base\<close>, \<open>visibility\<close>,
  \<open>killzone_penalty\<close>, \<open>risk_weight\<close>, \<open>temp_penalty\<close>, ...) are a map from key to
  value; the geometry payload and the string-valued tags (\<open>road_type\<close>, ...) are kept
  beside it with their own types.
\<close>

type_synonym node = int

type_synonym coord = "real \<times> real"

datatype geometry = LineString "(real \<times> real) list" | Unreadable

record edge_data =
  attrs :: "string \<rightharpoonup> real"
  geometry :: "geometry option"
  tags :: "string \<rightharpoonup> string"

record digraph =
  nodes :: "node \<rightharpoonup> (string \<rightharpoonup> real)"
  edges :: "node \<times> node \<rightharpoonup> edge_data"

text \<open>\<open>data.get(key, default)\<close> on the float attributes of an edge.\<close>

definition get_attr :: "edge_data \<Rightarrow> string \<Rightarrow> real \<Rightarrow> real" where
  "get_attr d k dflt = (case attrs d k of None \<Rightarrow> dflt | Some x \<Rightarrow> x)"

text \<open>\<open>(graph.nodes[n]["y"], graph.nodes[n]["x"])\<close>: a missing node or key raises.\<close>

definition node_pos :: "digraph \<Rightarrow> node \<Rightarrow> py_error + coord" where
  "node_pos g n =
     (case nodes g n of
        None \<Rightarrow> Inl KeyError
      | Some a \<Rightarrow>
          (case a ''y'' of
             None \<Rightarrow> Inl KeyError
           | Some lat \<Rightarrow> (case a ''x'' of None \<Rightarrow> Inl KeyError | Some lon \<Rightarrow> Inr (lat, lon))))"

text \<open>
  The weight argument of \<open>nx.shortest_path\<close>: an attribute key or a callable on the
  edge data. The search itself belongs to networkx and is a parameter of the model:
  it returns a node path, or raises (NetworkXNoPath when the target cannot be reached,
  NodeNotFound when an endpoint is not a node).
\<close>

datatype weight = ByKey string | ByFunction "edge_data \<Rightarrow> real"

type_synonym shortest_path = "digraph \<Rightarrow> node \<Rightarrow> node \<Rightarrow> weight \<Rightarrow> py_error + node list"

text \<open>
  Directed reachability along the edges of the graph, and the part of networkx's
  documented contract the router relies on: for two nodes of the graph with no directed
  path from the first to the second, the search raises NetworkXNoPath.
\<close>

inductive reachable :: "digraph \<Rightarrow> node \<Rightarrow> node \<Rightarrow> bool" for g :: digraph where
  reachable_here: "reachable g u u"
| reachable_step: "edges g (u, v) \<noteq> None \<Longrightarrow> reachable g v w \<Longrightarrow> reachable g u w"

definition raises_no_path :: "shortest_path \<Rightarrow> bool" where
  "raises_no_path nx =
     (\<forall>g s t w. s \<in> dom (nodes g) \<and> t \<in> dom (nodes g) \<and> \<not> reachable g s t
        \<longrightarrow> nx g s t w = Inl NetworkXNoPath)"

section \<open>Scenario generation (cvar\_routing.py, \_generate\_scenarios)\<close>

text \<open>
  The source draws from NumPy's process-wide generator and never seeds it. The
  generator is a stream of draws with a cursor: \<open>floats\<close> are the unit-interval samples
  behind \<open>np.random.uniform\<close>, \<open>ints\<close> the integer samples behind
  \<open>np.random.choice\<close>; every draw moves the cursor by one.
\<close>

record rng =
  floats :: "nat \<Rightarrow> real"
  ints :: "nat \<Rightarrow> nat"
  cursor :: nat

definition np_uniform :: "real \<Rightarrow> real \<Rightarrow> rng \<Rightarrow> real \<times> rng" where
  "np_uniform low high r =
     (low + (high - low) * floats r (cursor r), r\<lparr>cursor := Suc (cursor r)\<rparr>)"

definition np_choice :: "real list \<Rightarrow> rng \<Rightarrow> real \<times> rng" where
  "np_choice xs r = (xs ! (ints r (cursor r) mod length xs), r\<lparr>cursor := Suc (cursor r)\<rparr>)"

record scenario =
  visibility_mult :: real
  detection_mult :: real
  patrol_presence :: real

fun generate_scenarios :: "nat \<Rightarrow> rng \<Rightarrow> scenario list \<times> rng" where
  "generate_scenarios 0 r = ([], r)"
| "generate_scenarios (Suc n) r =
     (let (v, r1) = np_uniform (7/10) (13/10) r;
          (d, r2) = np_uniform (8/10) (12/10) r1;
          (p, r3) = np_choice [8/10, 1, 12/10, 15/10] r2;
          (rest, r4) = generate_scenarios n r3
      in (\<lparr>visibility_mult = v, detection_mult = d, patrol_presence = p\<rparr> # rest, r4))"

section \<open>Edge risk and route results (cvar\_routing.py)\<close>

definition get_edge_risk :: "edge_data \<Rightarrow> scenario \<Rightarrow> real \<Rightarrow> real" where
  "get_edge_risk d s cargo_value =
     (let base_detection = get_attr d ''detection_base'' (3/10);
          visibility = get_attr d ''visibility'' (5/10);
          killzone_penalty = get_attr d ''killzone_penalty'' 1;
          scenario_risk =
            base_detection * detection_mult s
            * (1 + visibility * visibility_mult s * (5/10))
            * patrol_presence s * killzone_penalty;
          weighted_risk = scenario_risk * (cargo_value / 10)
      in min weighted_risk 10)"

record Waypoint =
  latitude :: real
  longitude :: real
  name :: string
  eta_hours :: real
  instructions :: string
  risk_level :: real

record RouteResult =
  path :: "coord list"
  node_path :: "node list"
  time_minutes :: real
  distance_km :: real
  mean_risk :: real
  cvar_95 :: real
  cvar_99 :: real
  waypoints :: "Waypoint list"
  method_tag :: string
  survival_probability :: real

definition empty_result :: "string \<Rightarrow> RouteResult" where
  "empty_result m =
     \<lparr>path = [], node_path = [], time_minutes = 0, distance_km = 0, mean_risk = 0,
      cvar_95 = 0, cvar_99 = 0, waypoints = [], method_tag = m, survival_probability = 0\<rparr>"

text \<open>Coordinates appended for an edge without usable geometry: both endpoints on the
  first edge, the far endpoint afterwards.\<close>

definition endpoint_coords :: "digraph \<Rightarrow> node \<Rightarrow> node \<Rightarrow> nat \<Rightarrow> py_error + coord list" where
  "endpoint_coords g u v i =
     (if i = 0 then
        (case node_pos g u of
           Inl e \<Rightarrow> Inl e
         | Inr pu \<Rightarrow> (case node_pos g v of Inl e \<Rightarrow> Inl e | Inr pv \<Rightarrow> Inr [pu, pv]))
      else (case node_pos g v of Inl e \<Rightarrow> Inl e | Inr pv \<Rightarrow> Inr [pv]))"

text \<open>A geometry object is truthy unless it is an empty line; \<open>geom.xy\<close> gives the
  longitudes and latitudes, zipped into (lat, lon) pairs, or raises.\<close>

fun truthy :: "geometry \<Rightarrow> bool" where
  "truthy (LineString pts) = (pts \<noteq> [])"
| "truthy Unreadable = True"

fun segment_of :: "geometry \<Rightarrow> coord list option" where
  "segment_of (LineString pts) = Some (map (\<lambda>(lon, lat). (lat, lon)) pts)"
| "segment_of Unreadable = None"

definition segment_coords ::
  "digraph \<Rightarrow> edge_data \<Rightarrow> node \<Rightarrow> node \<Rightarrow> nat \<Rightarrow> py_error + coord list" where
  "segment_coords g d u v i =
     (case geometry d of
        None \<Rightarrow> endpoint_coords g u v i
      | Some geom \<Rightarrow>
          if truthy geom then
            (case segment_of geom of
               None \<Rightarrow> endpoint_coords g u v i
             | Some segment \<Rightarrow>
                 if segment = [] then endpoint_coords g u v i
                 else if i = 0 then Inr segment
                 else Inr (tl segment))
          else endpoint_coords g u v i)"

text \<open>The first loop of \<open>_build_route_result\<close>, over the edge indices of the node
  path: the state is (path\_coords, total\_time, total\_distance).\<close>

fun edge_loop ::
  "digraph \<Rightarrow> node list \<Rightarrow> nat list \<Rightarrow> coord list \<times> real \<times> real
     \<Rightarrow> py_error + (coord list \<times> real \<times> real)" where
  "edge_loop g np [] acc = Inr acc"
| "edge_loop g np (i # rest) (path_coords, total_time, total_distance) =
     (case edges g (np ! i, np ! (i + 1)) of
        None \<Rightarrow> edge_loop g np rest (path_coords, total_time, total_distance)
      | Some d \<Rightarrow>
          (case segment_coords g d (np ! i) (np ! (i + 1)) i of
             Inl e \<Rightarrow> Inl e
           | Inr seg \<Rightarrow>
               edge_loop g np rest
                 (path_coords @ seg,
                  total_time + get_attr d ''travel_time_hours'' 0,
                  total_distance + get_attr d ''distance_km'' 0)))"

text \<open>The second loop, over \<open>enumerate(node_path)\<close>; \<open>n\<close> is the length of the node
  path and \<open>total_time\<close> the value the first loop ended with.\<close>

fun waypoint_loop ::
  "digraph \<Rightarrow> nat \<Rightarrow> nat \<Rightarrow> real \<Rightarrow> (nat \<times> node) list \<Rightarrow> Waypoint list
     \<Rightarrow> py_error + Waypoint list" where
  "waypoint_loop g n waypoint_interval total_time [] wps = Inr wps"
| "waypoint_loop g n waypoint_interval total_time ((i, nd) # rest) wps =
     (if i = 0 \<or> int i = int n - 1 \<or> i mod waypoint_interval = 0 then
        (case node_pos g nd of
           Inl e \<Rightarrow> Inl e
         | Inr (lat, lon) \<Rightarrow>
             waypoint_loop g n waypoint_interval total_time rest
               (wps @ [\<lparr>latitude = lat, longitude = lon,
                         name = (if i = 0 then ''Origin''
                                 else if int i = int n - 1 then ''Destination''
                                 else ''Waypoint '' @ str_nat (length wps)),
                         eta_hours = total_time, instructions = [], risk_level = 0\<rparr>]))
      else waypoint_loop g n waypoint_interval total_time rest wps)"

definition path_risk :: "digraph \<Rightarrow> node list \<Rightarrow> scenario \<Rightarrow> real \<Rightarrow> real" where
  "path_risk g np s cargo_value =
     foldl (\<lambda>risk i.
              case edges g (np ! i, np ! (i + 1)) of
                None \<Rightarrow> risk
              | Some d \<Rightarrow> risk + get_edge_risk d s cargo_value)
       0 [0..<length np - 1]"

definition build_route_result ::
  "digraph \<Rightarrow> node list \<Rightarrow> scenario list \<Rightarrow> real \<Rightarrow> string \<Rightarrow> py_error + RouteResult" where
  "build_route_result g np scenarios cargo_value m =
     (case edge_loop g np [0..<length np - 1] ([], 0, 0) of
        Inl e \<Rightarrow> Inl e
      | Inr (path_coords, total_time, total_distance) \<Rightarrow>
          (case waypoint_loop g (length np) (max 1 (length np div 10)) total_time
                  (zip [0..<length np] np) [] of
             Inl e \<Rightarrow> Inl e
           | Inr wps \<Rightarrow>
               (let scenario_risks = map (\<lambda>s. path_risk g np s cargo_value) scenarios in
                case calculate_cvar scenario_risks (95/100) of
                  Inl e \<Rightarrow> Inl e
                | Inr c95 \<Rightarrow>
                    (case calculate_cvar scenario_risks (99/100) of
                       Inl e \<Rightarrow> Inl e
                     | Inr c99 \<Rightarrow>
                         Inr \<lparr>path = path_coords, node_path = np,
                              time_minutes = total_time * 60,
                              distance_km = total_distance,
                              mean_risk = np_mean scenario_risks,
                              cvar_95 = c95, cvar_99 = c99, waypoints = wps,
                              method_tag = m,
                              survival_probability =
                                calculate_survival_probability c95 (1/10)\<rparr>))))"

section \<open>The router and its four operations (cvar\_routing.py, CVaRRouter)\<close>

text \<open>
  The router object holds the graph it shares with its callers. An operation takes the
  router and the generator and returns its result or the exception it raises, together
  with the router and the generator as it leaves them.
\<close>

record router =
  graph :: digraph
  alpha :: real
  num_scenarios :: nat

type_synonym 'a outcome = "(py_error + 'a) \<times> router \<times> rng"

definition shortest_distance ::
  "shortest_path \<Rightarrow> router \<Rightarrow> rng \<Rightarrow> node \<Rightarrow> node \<Rightarrow> RouteResult outcome" where
  "shortest_distance nx self r origin destination =
     (case nx (graph self) origin destination (ByKey ''distance_km'') of
        Inl NetworkXNoPath \<Rightarrow> (Inr (empty_result ''shortest_distance''), self, r)
      | Inl e \<Rightarrow> (Inl e, self, r)
      | Inr np \<Rightarrow>
          (let (scenarios, r') = generate_scenarios (num_scenarios self) r
           in (build_route_result (graph self) np scenarios 7 ''shortest_distance'', self, r')))"

definition shortest_time ::
  "shortest_path \<Rightarrow> router \<Rightarrow> rng \<Rightarrow> node \<Rightarrow> node \<Rightarrow> RouteResult outcome" where
  "shortest_time nx self r origin destination =
     (case nx (graph self) origin destination (ByKey ''travel_time_hours'') of
        Inl NetworkXNoPath \<Rightarrow> (Inr (empty_result ''shortest_time''), self, r)
      | Inl e \<Rightarrow> (Inl e, self, r)
      | Inr np \<Rightarrow>
          (let (scenarios, r') = generate_scenarios (num_scenarios self) r
           in (build_route_result (graph self) np scenarios 7 ''shortest_time'', self, r')))"

text \<open>\<open>mean_risk\<close> first stores a \<open>risk_weight\<close> on every edge of the shared graph.\<close>

definition set_risk_weight :: "real \<Rightarrow> edge_data \<Rightarrow> edge_data" where
  "set_risk_weight cargo_value d =
     d\<lparr>attrs := (attrs d)(''risk_weight'' \<mapsto>
          get_attr d ''detection_base'' (3/10) * cargo_value / 10
            * get_attr d ''killzone_penalty'' 1)\<rparr>"

definition assign_risk_weights :: "real \<Rightarrow> digraph \<Rightarrow> digraph" where
  "assign_risk_weights cargo_value g =
     g\<lparr>edges := (\<lambda>e. map_option (set_risk_weight cargo_value) (edges g e))\<rparr>"

definition mean_risk_route ::
  "shortest_path \<Rightarrow> router \<Rightarrow> rng \<Rightarrow> node \<Rightarrow> node \<Rightarrow> real \<Rightarrow> RouteResult outcome" where
  "mean_risk_route nx self r origin destination cargo_value =
     (let self' = self\<lparr>graph := assign_risk_weights cargo_value (graph self)\<rparr> in
      case nx (graph self') origin destination (ByKey ''risk_weight'') of
        Inl NetworkXNoPath \<Rightarrow> (Inr (empty_result ''mean_risk''), self', r)
      | Inl e \<Rightarrow> (Inl e, self', r)
      | Inr np \<Rightarrow>
          (let (scenarios, r') = generate_scenarios (num_scenarios self') r
           in (build_route_result (graph self') np scenarios cargo_value ''mean_risk'',
               self', r')))"

text \<open>Path reconstruction from the edges the program selected. The walk returns
  \<open>None\<close> where the source returns the empty list from inside the loop.\<close>

fun walk ::
  "(node \<rightharpoonup> node) \<Rightarrow> node \<Rightarrow> nat \<Rightarrow> node \<Rightarrow> node list \<Rightarrow> node list option" where
  "walk edge_dict destination 0 current p = Some p"
| "walk edge_dict destination (Suc fuel) current p =
     (if current = destination then Some p
      else (case edge_dict current of
              None \<Rightarrow> None
            | Some next_node \<Rightarrow> walk edge_dict destination fuel next_node (p @ [next_node])))"

definition edges_to_path :: "(node \<times> node) list \<Rightarrow> node \<Rightarrow> node \<Rightarrow> node list" where
  "edges_to_path es origin destination =
     (if es = [] then []
      else (case walk (map_of (rev es)) destination (length es + 1) origin [origin] of
              None \<Rightarrow> []
            | Some p \<Rightarrow> if last p = destination then p else []))"

text \<open>
  The mixed-integer program is built and solved by Pyomo and an external solver, a
  parameter of the model: the solve raises (caught by the source), or it returns and
  reading the variable values raises (not caught), or the edges with value above one
  half are read off. The model object always has its attribute \<open>x\<close>, so the branch
  guarded by \<open>not hasattr(model, "x")\<close> is never taken. The objective divides by
  \<open>1 - alpha\<close> and by \<open>num_scenarios\<close> before the solve is attempted.
\<close>

datatype solve_outcome = SolveRaised | ReadRaised | Selected "(node \<times> node) list"

type_synonym milp =
  "digraph \<Rightarrow> scenario list \<Rightarrow> node \<Rightarrow> node \<Rightarrow> real \<Rightarrow> real \<Rightarrow> real \<Rightarrow> real \<Rightarrow> solve_outcome"

definition optimize ::
  "shortest_path \<Rightarrow> milp \<Rightarrow> router \<Rightarrow> rng \<Rightarrow> node \<Rightarrow> node \<Rightarrow> real \<Rightarrow> real \<Rightarrow> real
     \<Rightarrow> RouteResult outcome" where
  "optimize nx solver self r origin destination cargo_value weight_time weight_risk =
     (let (scenarios, r1) = generate_scenarios (num_scenarios self) r in
      if alpha self = 1 \<or> num_scenarios self = 0 then (Inl ZeroDivisionError, self, r1)
      else
        (case solver (graph self) scenarios origin destination cargo_value
                weight_time weight_risk (alpha self) of
           SolveRaised \<Rightarrow> shortest_time nx self r1 origin destination
         | ReadRaised \<Rightarrow> (Inl ValueError, self, r1)
         | Selected selected_edges \<Rightarrow>
             (let np = edges_to_path selected_edges origin destination in
              if np = [] then shortest_time nx self r1 origin destination
              else (build_route_result (graph self) np scenarios cargo_value ''cvar'',
                    self, r1))))"

section \<open>Pareto filter (pareto.py)\<close>

definition dominates :: "RouteResult \<Rightarrow> RouteResult \<Rightarrow> bool" where
  "dominates a b =
     (let time_better = (time_minutes a \<le> time_minutes b);
          risk_better = (cvar_95 a \<le> cvar_95 b);
          time_strictly_better = (time_minutes a < time_minutes b);
          risk_strictly_better = (cvar_95 a < cvar_95 b)
      in time_better \<and> risk_better \<and> (time_strictly_better \<or> risk_strictly_better))"

text \<open>The inner loop: is the result at index \<open>i\<close> dominated by a result at another index?\<close>

definition dominated_at :: "RouteResult list \<Rightarrow> nat \<Rightarrow> bool" where
  "dominated_at results i =
     list_ex (\<lambda>j. j \<noteq> i \<and> dominates (results ! j) (results ! i)) [0..<length results]"

definition filter_dominated :: "RouteResult list \<Rightarrow> RouteResult list" where
  "filter_dominated results =
     (if length results \<le> 1 then results
      else map (\<lambda>i. results ! i)
             (filter (\<lambda>i. \<not> dominated_at results i) [0..<length results]))"

section \<open>Kill-zone penalty (graph\_builder.py, \_compute\_killzone\_penalty)\<close>

record kill_zone =
  center :: coord
  radius_km :: real

text \<open>The penalty of one zone, from the distance to its centre and its radius.\<close>

definition zone_penalty :: "real \<Rightarrow> real \<Rightarrow> real" where
  "zone_penalty dkm r =
     (if dkm < r then 1000
      else if dkm < r * (15/10) then
        50 * exp (3 * (1 - (dkm - r) / (r * (5/10))))
      else if dkm < r * 2 then 10
      else 1)"

text \<open>\<open>haversine_distance\<close> delegates to geopy's geodesic distance and is a parameter.\<close>

type_synonym distance_fn = "real \<Rightarrow> real \<Rightarrow> real \<Rightarrow> real \<Rightarrow> real"

definition compute_killzone_penalty ::
  "distance_fn \<Rightarrow> real \<Rightarrow> real \<Rightarrow> kill_zone list option \<Rightarrow> real" where
  "compute_killzone_penalty haversine_distance lat lon kill_zones =
     (case kill_zones of
        None \<Rightarrow> 1
      | Some kzs \<Rightarrow>
          if kzs = [] then 1
          else foldl (\<lambda>min_penalty kz.
                        max min_penalty
                          (zone_penalty
                             (haversine_distance lat lon (fst (center kz)) (snd (center kz)))
                             (radius_km kz)))
                 1 kzs)"

section \<open>Stackelberg layer (game\_theory.py)\<close>

text \<open>
  \<open>game.support_enumeration()\<close> belongs to nashpy and is a parameter: from the two
  payoff matrices it yields a list of equilibria, each a pair of strategies.
\<close>

type_synonym matrix = "real list list"

type_synonym support_enumeration = "matrix \<Rightarrow> matrix \<Rightarrow> (real list \<times> real list) list"

definition solve_zero_sum_game :: "support_enumeration \<Rightarrow> matrix \<Rightarrow> real list" where
  "solve_zero_sum_game enumerate_equilibria payoff_matrix =
     (let K = length payoff_matrix in
      if K = 1 then [1]
      else (case enumerate_equilibria payoff_matrix (map (map uminus) payoff_matrix) of
              (attacker_strategy, _) # _ \<Rightarrow> attacker_strategy
            | [] \<Rightarrow> replicate K (1 / real K)))"

text \<open>
  What an enumerated pair is: a Nash equilibrium of the bimatrix game \<open>(A, B)\<close>, that
  is, two probability vectors such that no pure row does better than the row player's
  expected payoff and no pure column does better than the column player's. The test
  \<open>uniform_within\<close> is the check of scenario S6: every entry within \<open>1e-6\<close> of \<open>1/K\<close>.
\<close>

definition is_distribution :: "real list \<Rightarrow> bool" where
  "is_distribution p = (list_all (\<lambda>x. 0 \<le> x) p \<and> sum_list p = 1)"

definition row_payoff :: "matrix \<Rightarrow> real list \<Rightarrow> nat \<Rightarrow> real" where
  "row_payoff A q i = sum_list (map (\<lambda>j. A ! i ! j * q ! j) [0..<length q])"

definition column_payoff :: "matrix \<Rightarrow> real list \<Rightarrow> nat \<Rightarrow> real" where
  "column_payoff B p j = sum_list (map (\<lambda>i. p ! i * B ! i ! j) [0..<length p])"

definition is_equilibrium :: "matrix \<Rightarrow> matrix \<Rightarrow> real list \<times> real list \<Rightarrow> bool" where
  "is_equilibrium A B s =
     (let p = fst s; q = snd s in
      is_distribution p \<and> length p = length A
      \<and> is_distribution q \<and> list_all (\<lambda>row. length row = length q) A
      \<and> list_all (\<lambda>i. row_payoff A q i
                         \<le> sum_list (map (\<lambda>k. p ! k * row_payoff A q k) [0..<length p]))
           [0..<length p]
      \<and> list_all (\<lambda>j. column_payoff B p j
                         \<le> sum_list (map (\<lambda>k. column_payoff B p k * q ! k) [0..<length q]))
           [0..<length q])"

definition uniform_within :: "real list \<Rightarrow> nat \<Rightarrow> bool" where
  "uniform_within p K =
     (length p = K \<and> list_all (\<lambda>x. \<bar>x - 1 / real K\<bar> \<le> 1 / 1000000) p)"

text \<open>Route portfolio. The consecutive node pairs of the routes found so far are the
  edges that receive the temporary penalty.\<close>

definition route_edges :: "node list \<Rightarrow> (node \<times> node) list" where
  "route_edges np = map (\<lambda>i. (np ! i, np ! (i + 1))) [0..<length np - 1]"

definition penalty_edges :: "RouteResult list \<Rightarrow> (node \<times> node) list" where
  "penalty_edges routes = concat (map (\<lambda>route. route_edges (node_path route)) routes)"

definition add_temp_penalty :: "(node \<times> node) list \<Rightarrow> digraph \<Rightarrow> digraph" where
  "add_temp_penalty pes g =
     g\<lparr>edges := (\<lambda>e. if e \<in> set pes
                      then map_option (\<lambda>d. d\<lparr>attrs := (attrs d)(''temp_penalty'' \<mapsto> 100)\<rparr>)
                             (edges g e)
                      else edges g e)\<rparr>"

definition remove_temp_penalty :: "(node \<times> node) list \<Rightarrow> digraph \<Rightarrow> digraph" where
  "remove_temp_penalty pes g =
     g\<lparr>edges := (\<lambda>e. if e \<in> set pes
                      then map_option (\<lambda>d. d\<lparr>attrs := (attrs d)(''temp_penalty'' := None)\<rparr>)
                             (edges g e)
                      else edges g e)\<rparr>"

definition penalized_time :: "edge_data \<Rightarrow> real" where
  "penalized_time d = get_attr d ''travel_time_hours'' 1 + get_attr d ''temp_penalty'' 0"

text \<open>The padding loop of \<open>_generate_k_routes\<close>. Any exception inside the loop body
  is caught and ends the loop; the loop also ends when the new path is already known.\<close>

function diverse_loop ::
  "shortest_path \<Rightarrow> router \<Rightarrow> rng \<Rightarrow> node \<Rightarrow> node \<Rightarrow> real \<Rightarrow> int \<Rightarrow> RouteResult list
     \<Rightarrow> RouteResult list \<times> router \<times> rng" where
  "diverse_loop nx self r origin destination cargo_value k routes =
     (if int (length routes) < k then
        (let pes = penalty_edges routes;
             self1 = self\<lparr>graph := add_temp_penalty pes (graph self)\<rparr>
         in case nx (graph self1) origin destination (ByFunction penalized_time) of
              Inl e \<Rightarrow> (routes, self1, r)
            | Inr diverse_path \<Rightarrow>
                (let self2 = self1\<lparr>graph := remove_temp_penalty pes (graph self1)\<rparr>;
                     (scenarios, r') = generate_scenarios (num_scenarios self2) r
                 in case build_route_result (graph self2) diverse_path scenarios cargo_value
                           (''diverse_'' @ str_nat (length routes + 1)) of
                      Inl e \<Rightarrow> (routes, self2, r')
                    | Inr diverse_result \<Rightarrow>
                        if node_path diverse_result \<notin> set (map node_path routes)
                        then diverse_loop nx self2 r' origin destination cargo_value k
                               (routes @ [diverse_result])
                        else (routes, self2, r')))
      else (routes, self, r))"
  by pat_completeness auto
termination
  by (relation "measure (\<lambda>(nx, self, r, origin, destination, cargo_value, k, routes).
        nat (k - int (length routes)))") auto

definition generate_k_routes ::
  "shortest_path \<Rightarrow> milp \<Rightarrow> router \<Rightarrow> rng \<Rightarrow> node \<Rightarrow> node \<Rightarrow> real \<Rightarrow> int
     \<Rightarrow> (RouteResult list) outcome" where
  "generate_k_routes nx solver self r origin destination cargo_value k =
     (case optimize nx solver self r origin destination cargo_value (5/10) (5/10) of
        (Inl e, self1, r1) \<Rightarrow> (Inl e, self1, r1)
      | (Inr baseline, self1, r1) \<Rightarrow>
          (case shortest_time nx self1 r1 origin destination of
             (Inl e, self2, r2) \<Rightarrow> (Inl e, self2, r2)
           | (Inr fastest, self2, r2) \<Rightarrow>
               (let routes1 = (if node_path fastest \<noteq> node_path baseline
                               then [baseline, fastest] else [baseline])
                in case shortest_distance nx self2 r2 origin destination of
                     (Inl e, self3, r3) \<Rightarrow> (Inl e, self3, r3)
                   | (Inr shortest, self3, r3) \<Rightarrow>
                       (let routes2 = (if node_path shortest \<notin> set (map node_path routes1)
                                       then routes1 @ [shortest] else routes1)
                        in case mean_risk_route nx self3 r3 origin destination cargo_value of
                             (Inl e, self4, r4) \<Rightarrow> (Inl e, self4, r4)
                           | (Inr mean_risk_result, self4, r4) \<Rightarrow>
                               (let routes3 =
                                      (if node_path mean_risk_result
                                            \<notin> set (map node_path routes2)
                                       then routes2 @ [mean_risk_result] else routes2);
                                    (routes4, self5, r5) =
                                      diverse_loop nx self4 r4 origin destination
                                        cargo_value k routes3
                                in (Inr (py_take k routes4), self5, r5))))))"

section \<open>Frame of the solver operations\<close>

text \<open>
  Two graphs agree except on the float attributes named in \<open>keys\<close>: same nodes with
  the same attributes, same edges, and on every edge the same geometry, the same tags
  and the same value (or absence) of every float attribute outside \<open>keys\<close>.
\<close>

definition same_except :: "string set \<Rightarrow> digraph \<Rightarrow> digraph \<Rightarrow> bool" where
  "same_except keys g g' =
     (nodes g' = nodes g
      \<and> (\<forall>e. (edges g' e = None \<longleftrightarrow> edges g e = None)
             \<and> (\<forall>d d'. edges g e = Some d \<and> edges g' e = Some d' \<longrightarrow>
                    geometry d' = geometry d \<and> tags d' = tags d
                    \<and> (\<forall>k. k \<notin> keys \<longrightarrow> attrs d' k = attrs d k))))"

section \<open>Test inputs\<close>

text \<open>The fixture \<open>simple_graph\<close> of tests/test\_routing.py: four nodes, the chain
  \<open>0 \<rightarrow> 1 \<rightarrow> 2 \<rightarrow> 3\<close> and the shortcut \<open>0 \<rightarrow> 2\<close>.\<close>

definition simple_graph :: digraph where
  "simple_graph =
     \<lparr>nodes = [0 \<mapsto> [''y'' \<mapsto> 482/10, ''x'' \<mapsto> 371/10],
               1 \<mapsto> [''y'' \<mapsto> 4825/100, ''x'' \<mapsto> 3715/100],
               2 \<mapsto> [''y'' \<mapsto> 483/10, ''x'' \<mapsto> 372/10],
               3 \<mapsto> [''y'' \<mapsto> 4835/100, ''x'' \<mapsto> 3725/100]],
      edges = [(0, 1) \<mapsto> \<lparr>attrs = [''distance_km'' \<mapsto> 5, ''travel_time_hours'' \<mapsto> 1/10,
                                      ''detection_base'' \<mapsto> 2/10],
                            geometry = None, tags = [''road_type'' \<mapsto> ''primary'']\<rparr>,
               (1, 2) \<mapsto> \<lparr>attrs = [''distance_km'' \<mapsto> 6, ''travel_time_hours'' \<mapsto> 12/100,
                                      ''detection_base'' \<mapsto> 5/10],
                            geometry = None, tags = [''road_type'' \<mapsto> ''secondary'']\<rparr>,
               (0, 2) \<mapsto> \<lparr>attrs = [''distance_km'' \<mapsto> 12, ''travel_time_hours'' \<mapsto> 25/100,
                                      ''detection_base'' \<mapsto> 15/100],
                            geometry = None, tags = [''road_type'' \<mapsto> ''track'']\<rparr>,
               (2, 3) \<mapsto> \<lparr>attrs = [''distance_km'' \<mapsto> 4, ''travel_time_hours'' \<mapsto> 8/100,
                                      ''detection_base'' \<mapsto> 3/10],
                            geometry = None, tags = [''road_type'' \<mapsto> ''primary'']\<rparr>]\<rparr>"

text \<open>A stand-in for the networkx search in examples: it finds the trivial path and
  single edges, and raises NetworkXNoPath otherwise.\<close>

definition direct_search :: shortest_path where
  "direct_search g s t w =
     (if s = t then Inr [s]
      else (case edges g (s, t) of None \<Rightarrow> Inl NetworkXNoPath | Some d \<Rightarrow> Inr [s, t]))"

text \<open>A generator state for examples: every unit sample is one half, the integer
  sample at position \<open>i\<close> is \<open>i\<close>.\<close>

definition fixed_rng :: rng where
  "fixed_rng = \<lparr>floats = (\<lambda>i. 1/2), ints = (\<lambda>i. i), cursor = 0\<rparr>"

declare str_nat.simps [simp del]

declare diverse_loop.simps [simp del]

section \<open>Properties of the CVaR computation\<close>

lemma sum_list_filter_split:
  fixes xs :: "real list"
  shows "sum_list xs = sum_list (filter P xs) + sum_list (filter (\<lambda>x. \<not> P x) xs)"
  by (induction xs) auto

lemma length_filter_split:
  "length xs = length (filter P xs) + length (filter (\<lambda>x. \<not> P x) xs)"
  by (induction xs) auto

lemma sum_list_lower:
  fixes xs :: "real list"
  assumes "\<forall>x\<in>set xs. v \<le> x"
  shows "real (length xs) * v \<le> sum_list xs"
  using assms by (induction xs) (auto simp: algebra_simps)

lemma sum_list_upper:
  fixes xs :: "real list"
  assumes "\<forall>x\<in>set xs. x \<le> v"
  shows "sum_list xs \<le> real (length xs) * v"
  using assms by (induction xs) (auto simp: algebra_simps)

lemma mean_filter_ge:
  fixes xs :: "real list"
  assumes ne: "filter (\<lambda>r. v \<le> r) xs \<noteq> []"
  shows "np_mean xs \<le> np_mean (filter (\<lambda>r. v \<le> r) xs)"
proof -
  let ?A = "filter (\<lambda>r. v \<le> r) xs"
  let ?B = "filter (\<lambda>r. \<not> v \<le> r) xs"
  define a where "a = real (length ?A)"
  define b where "b = real (length ?B)"
  have apos: "0 < a" using ne by (simp add: a_def)
  have bnn: "0 \<le> b" by (simp add: b_def)
  have sA: "a * v \<le> sum_list ?A" unfolding a_def by (rule sum_list_lower) simp
  have sB: "sum_list ?B \<le> b * v" unfolding b_def by (rule sum_list_upper) auto
  have sum: "sum_list xs = sum_list ?A + sum_list ?B" by (rule sum_list_filter_split)
  have len: "real (length xs) = a + b"
    unfolding a_def b_def using length_filter_split [of xs "\<lambda>r. v \<le> r"] by simp
  have "sum_list ?B * a \<le> b * v * a"
    using sB apos by (simp add: mult_right_mono)
  also have "\<dots> = b * (a * v)" by simp
  also have "\<dots> \<le> b * sum_list ?A" using sA bnn by (rule mult_left_mono)
  finally have cross: "sum_list ?B * a \<le> b * sum_list ?A" .
  have "(sum_list ?A + sum_list ?B) * a \<le> sum_list ?A * (a + b)"
    using cross by (simp add: algebra_simps)
  then have "(sum_list ?A + sum_list ?B) / (a + b) \<le> sum_list ?A / a"
    using apos bnn by (simp add: field_simps)
  then show ?thesis
    unfolding np_mean_def sum len a_def [symmetric] .
qed

lemma sum_list_insort:
  fixes xs :: "real list"
  shows "sum_list (insort x xs) = x + sum_list xs"
  by (induction xs) auto

lemma sum_list_sort:
  fixes xs :: "real list"
  shows "sum_list (sort xs) = sum_list xs"
  by (induction xs) (auto simp: sum_list_insort)

lemma np_mean_sort: "np_mean (sort xs) = np_mean xs"
  by (simp add: np_mean_def sum_list_sort)

lemma np_mean_nonneg:
  assumes "\<forall>r\<in>set xs. 0 \<le> r"
  shows "0 \<le> np_mean xs"
  unfolding np_mean_def using assms by (simp add: sum_list_nonneg)

lemma var_index_range:
  assumes "risks \<noteq> []" "0 < a" "a < 1"
  shows "0 \<le> cvar_var_index risks a \<and> cvar_var_index risks a < int (length risks)"
proof -
  let ?n = "real (length risks)"
  have npos: "0 < ?n" using assms(1) by simp
  have lo: "0 \<le> a * ?n" using assms(2) by simp
  have hi: "a * ?n < ?n" using assms(3) npos by simp
  have "\<lfloor>a * ?n\<rfloor> < int (length risks)"
    using hi by (simp add: floor_less_iff)
  moreover have "0 \<le> \<lfloor>a * ?n\<rfloor>" using lo by simp
  ultimately show ?thesis using lo by (simp add: cvar_var_index_def py_int_def)
qed

lemma cvar_var_eq:
  assumes "risks \<noteq> []" "0 < a" "a < 1"
  shows "cvar_var risks a = Inr (sort risks ! nat (cvar_var_index risks a))"
  using var_index_range [OF assms]
  by (simp add: cvar_var_def Let_def py_get_def)

lemma var_in_tail:
  assumes "risks \<noteq> []" "0 < a" "a < 1"
  shows "sort risks ! nat (cvar_var_index risks a)
           \<in> set (tail_risks risks (sort risks ! nat (cvar_var_index risks a)))"
proof -
  have "nat (cvar_var_index risks a) < length (sort risks)"
    using var_index_range [OF assms] by (simp add: nat_less_iff)
  then have "sort risks ! nat (cvar_var_index risks a) \<in> set (sort risks)"
    by (rule nth_mem)
  then show ?thesis by (simp add: tail_risks_def)
qed


lemma calculate_cvar_eq:
  assumes "risks \<noteq> []" "0 < a" "a < 1"
  shows "calculate_cvar risks a =
           Inr (np_mean (tail_risks risks (sort risks ! nat (cvar_var_index risks a))))"
proof -
  have "tail_risks risks (sort risks ! nat (cvar_var_index risks a)) \<noteq> []"
    using var_in_tail [OF assms] by auto
  then show ?thesis by (simp add: calculate_cvar_def cvar_var_eq [OF assms])
qed

lemma var_index_mono:
  assumes "a \<le> b" "0 < a"
  shows "cvar_var_index risks a \<le> cvar_var_index risks b"
proof -
  have "a * real (length risks) \<le> b * real (length risks)"
    using assms(1) by (simp add: mult_right_mono)
  then have "\<lfloor>a * real (length risks)\<rfloor> \<le> \<lfloor>b * real (length risks)\<rfloor>"
    by (rule floor_mono)
  then show ?thesis using assms by (simp add: cvar_var_index_def py_int_def)
qed

lemma tail_mean_mono:
  assumes "v1 \<le> v2" "tail_risks risks v2 \<noteq> []"
  shows "np_mean (tail_risks risks v1) \<le> np_mean (tail_risks risks v2)"
proof -
  have eq: "tail_risks risks v2 = filter (\<lambda>r. v2 \<le> r) (tail_risks risks v1)"
    using assms(1) by (auto simp: tail_risks_def intro: filter_cong)
  show ?thesis
    unfolding eq by (rule mean_filter_ge) (use assms(2) eq in simp)
qed

text \<open>
  Claim C1. For a non-empty list of non-negative risks and confidence levels
  \<open>0 < a \<le> b < 1\<close>, \<open>_calculate_cvar\<close> returns a value at both levels,
  the mean of the list is non-negative, the CVaR at \<open>a\<close> is at least the mean,
  and the CVaR at \<open>b\<close> is at least the CVaR at \<open>a\<close>.
\<close>

theorem cvar_ge_mean_and_monotone:
  assumes "risks \<noteq> []" and "\<forall>r\<in>set risks. 0 \<le> r"
    and "0 < a" and "a \<le> b" and "b < 1"
  shows "\<exists>ca cb. calculate_cvar risks a = Inr ca \<and> calculate_cvar risks b = Inr cb
           \<and> 0 \<le> np_mean risks \<and> np_mean risks \<le> ca \<and> ca \<le> cb"
proof -
  have a: "0 < a" "a < 1" and b: "0 < b" "b < 1" using assms by auto
  let ?s = "sort risks"
  let ?va = "?s ! nat (cvar_var_index risks a)"
  let ?vb = "?s ! nat (cvar_var_index risks b)"
  have ca: "calculate_cvar risks a = Inr (np_mean (tail_risks risks ?va))"
    by (rule calculate_cvar_eq [OF assms(1) a])
  have cb: "calculate_cvar risks b = Inr (np_mean (tail_risks risks ?vb))"
    by (rule calculate_cvar_eq [OF assms(1) b])
  have nea: "tail_risks risks ?va \<noteq> []" using var_in_tail [OF assms(1) a] by auto
  have neb: "tail_risks risks ?vb \<noteq> []" using var_in_tail [OF assms(1) b] by auto
  have m0: "0 \<le> np_mean risks" by (rule np_mean_nonneg [OF assms(2)])
  have "np_mean ?s \<le> np_mean (tail_risks risks ?va)"
    unfolding tail_risks_def by (rule mean_filter_ge) (use nea in \<open>simp add: tail_risks_def\<close>)
  then have m1: "np_mean risks \<le> np_mean (tail_risks risks ?va)" by (simp add: np_mean_sort)
  have "nat (cvar_var_index risks a) \<le> nat (cvar_var_index risks b)"
    using var_index_mono [OF assms(4) a(1)] by (rule nat_mono)
  moreover have "nat (cvar_var_index risks b) < length ?s"
    using var_index_range [OF assms(1) b] by (simp add: nat_less_iff)
  ultimately have "?va \<le> ?vb" by (simp add: sorted_nth_mono)
  then have m2: "np_mean (tail_risks risks ?va) \<le> np_mean (tail_risks risks ?vb)"
    using neb by (rule tail_mean_mono)
  show ?thesis using ca cb m0 m1 m2 by simp
qed

theorem cvar_ge_mean_and_monotone_witness:
  "\<exists>ca cb. calculate_cvar [1/10, 1, 1/2] (1/2) = Inr ca
      \<and> calculate_cvar [1/10, 1, 1/2] (9/10) = Inr cb
      \<and> 0 \<le> np_mean [1/10, 1, 1/2] \<and> np_mean [1/10, 1, 1/2] \<le> ca \<and> ca \<le> cb"
  using cvar_ge_mean_and_monotone [of "[1/10, 1, 1/2]" "1/2" "9/10"] by simp

text \<open>
  Claim C10. For a non-empty risk list and \<open>0 < a < 1\<close> the index
  \<open>int(a * len)\<close> lies in \<open>[0, len)\<close>, so the guarded read takes the in-range
  branch; the tail \<open>{r. r \<ge> var}\<close> is non-empty and contains the maximum of the list,
  so the empty-tail fallback is not taken; the function returns the mean of the tail.
\<close>

theorem cvar_index_in_range_total:
  assumes "risks \<noteq> []" and "0 < a" and "a < 1"
  shows "0 \<le> cvar_var_index risks a
       \<and> cvar_var_index risks a < int (length (sort risks))
       \<and> (\<exists>var. cvar_var risks a = py_get (sort risks) (cvar_var_index risks a)
              \<and> cvar_var risks a = Inr var
              \<and> tail_risks risks var \<noteq> []
              \<and> Max (set risks) \<in> set (tail_risks risks var)
              \<and> calculate_cvar risks a = Inr (np_mean (tail_risks risks var)))"
proof -
  let ?k = "cvar_var_index risks a"
  let ?var = "sort risks ! nat ?k"
  have rng: "0 \<le> ?k" "?k < int (length (sort risks))"
    using var_index_range [OF assms] by simp_all
  have v: "cvar_var risks a = Inr ?var" by (rule cvar_var_eq [OF assms])
  have g: "cvar_var risks a = py_get (sort risks) ?k"
    using rng by (simp add: cvar_var_def Let_def)
  have mem: "?var \<in> set (tail_risks risks ?var)" by (rule var_in_tail [OF assms])
  then have ne: "tail_risks risks ?var \<noteq> []" by auto
  have "?var \<in> set risks" using mem by (simp add: tail_risks_def)
  then have "?var \<le> Max (set risks)" by simp
  moreover have "Max (set risks) \<in> set risks" using assms(1) by simp
  ultimately have mx: "Max (set risks) \<in> set (tail_risks risks ?var)"
    by (simp add: tail_risks_def)
  have c: "calculate_cvar risks a = Inr (np_mean (tail_risks risks ?var))"
    by (rule calculate_cvar_eq [OF assms])
  show ?thesis using rng v g ne mx c by blast
qed

theorem cvar_index_in_range_total_witness:
  "cvar_var_index [3/10, 1/10, 1] (95/100) = 2
     \<and> cvar_var [3/10, 1/10, 1] (95/100) = Inr 1
     \<and> calculate_cvar [3/10, 1/10, 1] (95/100) = Inr 1"
  using cvar_index_in_range_total [of "[3/10, 1/10, 1]" "95/100"]
  by (simp add: calculate_cvar_def cvar_var_def cvar_var_index_def py_int_def py_get_def
      tail_risks_def np_mean_def)

section \<open>Properties of the Pareto filter\<close>

lemma dominates_irrefl: "\<not> dominates a a"
  by (simp add: dominates_def)

lemma dominated_at_iff:
  assumes "i < length results"
  shows "dominated_at results i \<longleftrightarrow> (\<exists>y\<in>set results. dominates y (results ! i))"
proof
  assume "dominated_at results i"
  then obtain j where "j < length results" "dominates (results ! j) (results ! i)"
    by (auto simp: dominated_at_def list_ex_iff)
  then show "\<exists>y\<in>set results. dominates y (results ! i)"
    using nth_mem by blast
next
  assume "\<exists>y\<in>set results. dominates y (results ! i)"
  then obtain j where j: "j < length results" "dominates (results ! j) (results ! i)"
    by (auto simp: in_set_conv_nth)
  then have "j \<noteq> i" using dominates_irrefl by auto
  with j show "dominated_at results i"
    by (auto simp: dominated_at_def list_ex_iff)
qed

lemma filter_by_index:
  "map (\<lambda>i. xs ! i) (filter (\<lambda>i. P (xs ! i)) [0..<length xs]) = filter P xs"
proof -
  have "filter P xs = filter P (map (\<lambda>i. xs ! i) [0..<length xs])"
    by (simp add: map_nth)
  also have "\<dots> = map (\<lambda>i. xs ! i) (filter (\<lambda>i. P (xs ! i)) [0..<length xs])"
    by (simp add: filter_map comp_def)
  finally show ?thesis by simp
qed

lemma filter_dominated_eq:
  "filter_dominated results = filter (\<lambda>x. \<not> (\<exists>y\<in>set results. dominates y x)) results"
proof (cases "length results \<le> 1")
  case True
  then consider "results = []" | x where "results = [x]"
    by (cases results) auto
  then show ?thesis
    by cases (simp_all add: filter_dominated_def dominates_irrefl)
next
  case False
  have "filter (\<lambda>i. \<not> dominated_at results i) [0..<length results]
      = filter (\<lambda>i. \<not> (\<exists>y\<in>set results. dominates y (results ! i))) [0..<length results]"
    by (rule filter_cong) (simp_all add: dominated_at_iff)
  then show ?thesis
    using False filter_by_index [of results "\<lambda>x. \<not> (\<exists>y\<in>set results. dominates y x)"]
    by (simp add: filter_dominated_def)
qed

text \<open>
  Claim C9. A list in which no result dominates another is returned unchanged by
  \<open>_filter_dominated\<close>, and filtering twice gives the same list as filtering once.
\<close>

theorem filter_dominated_stable_idempotent:
  "((\<forall>a\<in>set results. \<forall>b\<in>set results. \<not> dominates a b) \<longrightarrow> filter_dominated results = results)
   \<and> filter_dominated (filter_dominated results) = filter_dominated results"
proof
  show "(\<forall>a\<in>set results. \<forall>b\<in>set results. \<not> dominates a b) \<longrightarrow> filter_dominated results = results"
    by (simp add: filter_dominated_eq)
next
  let ?P = "filter_dominated results"
  have sub: "set ?P \<subseteq> set results" by (auto simp: filter_dominated_eq)
  have "\<forall>x\<in>set ?P. \<not> (\<exists>y\<in>set ?P. dominates y x)"
    using sub by (auto simp: filter_dominated_eq)
  then have "filter (\<lambda>x. \<not> (\<exists>y\<in>set ?P. dominates y x)) ?P = ?P"
    by (simp add: filter_id_conv)
  then show "filter_dominated ?P = ?P"
    using filter_dominated_eq [of ?P] by simp
qed

theorem filter_dominated_stable_idempotent_witness:
  "filter_dominated
     [empty_result ''a''\<lparr>time_minutes := 10, cvar_95 := 3\<rparr>,
      empty_result ''b''\<lparr>time_minutes := 20, cvar_95 := 1\<rparr>]
   = [empty_result ''a''\<lparr>time_minutes := 10, cvar_95 := 3\<rparr>,
      empty_result ''b''\<lparr>time_minutes := 20, cvar_95 := 1\<rparr>]
   \<and> filter_dominated
     [empty_result ''a''\<lparr>time_minutes := 10, cvar_95 := 3\<rparr>,
      empty_result ''c''\<lparr>time_minutes := 30, cvar_95 := 3\<rparr>]
   = [empty_result ''a''\<lparr>time_minutes := 10, cvar_95 := 3\<rparr>]"
  using filter_dominated_stable_idempotent
          [of "[empty_result ''a''\<lparr>time_minutes := 10, cvar_95 := 3\<rparr>,
                empty_result ''b''\<lparr>time_minutes := 20, cvar_95 := 1\<rparr>]"]
  by (simp add: filter_dominated_eq dominates_def empty_result_def)

section \<open>Properties of the kill-zone penalty\<close>

lemma zone_penalty_inside: "d < r \<Longrightarrow> zone_penalty d r = 1000"
  by (simp add: zone_penalty_def)

lemma zone_penalty_near:
  "r \<le> d \<Longrightarrow> d < r * (15/10) \<Longrightarrow>
     zone_penalty d r = 50 * exp (3 * (1 - (d - r) / (r * (5/10))))"
  by (simp add: zone_penalty_def)

lemma zone_penalty_buffer:
  assumes "r * (15/10) \<le> d" "d < r * 2"
  shows "zone_penalty d r = 10"
proof -
  have "0 < r" using assms by simp
  then have "r \<le> d" using assms(1) by simp
  then show ?thesis using assms by (simp add: zone_penalty_def)
qed

lemma zone_penalty_far:
  assumes "0 \<le> d" "r * 2 \<le> d"
  shows "zone_penalty d r = 1"
proof -
  have "r \<le> d" using assms by (cases "0 \<le> r") auto
  moreover have "r * (15/10) \<le> d" using assms by (cases "0 \<le> r") auto
  ultimately show ?thesis using assms(2) by (simp add: zone_penalty_def)
qed

lemma zone_penalty_near_decreasing:
  assumes "r \<le> d1" "d1 < d2" "d2 < r * (15/10)"
  shows "zone_penalty d2 r < zone_penalty d1 r"
proof -
  have rpos: "0 < r" using assms by simp
  define q1 where "q1 = (d1 - r) / (r * (5/10))"
  define q2 where "q2 = (d2 - r) / (r * (5/10))"
  have "q1 < q2"
    unfolding q1_def q2_def using assms(2) rpos by (intro divide_strict_right_mono) auto
  then have "3 * (1 - q2) < 3 * (1 - q1)" by simp
  then have "exp (3 * (1 - q2)) < exp (3 * (1 - q1))" by (simp only: exp_less_mono)
  then have "exp (3 * (1 - (d2 - r) / (r * (5/10)))) < exp (3 * (1 - (d1 - r) / (r * (5/10))))"
    unfolding q1_def q2_def .
  moreover have "zone_penalty d1 r = 50 * exp (3 * (1 - (d1 - r) / (r * (5/10))))"
    using assms by (intro zone_penalty_near) auto
  moreover have "zone_penalty d2 r = 50 * exp (3 * (1 - (d2 - r) / (r * (5/10))))"
    using assms by (intro zone_penalty_near) auto
  ultimately show ?thesis by simp
qed

lemma zone_penalty_ge_1: "1 \<le> zone_penalty d r"
proof -
  have "1 \<le> 50 * exp (3 * (1 - (d - r) / (r * (5/10))))"
    if "r \<le> d" "d < r * (15/10)"
  proof -
    have rpos: "0 < r" using that by simp
    define q where "q = (d - r) / (r * (5/10))"
    have "q \<le> 1" unfolding q_def using that rpos by (simp add: field_simps)
    then have "0 \<le> 3 * (1 - q)" by simp
    then have "1 \<le> exp (3 * (1 - q))" by (simp only: one_le_exp_iff)
    moreover have "exp (3 * (1 - q)) \<le> 50 * exp (3 * (1 - q))"
      using exp_ge_zero [of "3 * (1 - q)"] by (simp only: mult_le_cancel_right1) simp
    ultimately have "1 \<le> 50 * exp (3 * (1 - q))" by (rule order_trans)
    then show ?thesis unfolding q_def .
  qed
  then show ?thesis by (auto simp: zone_penalty_def)
qed

lemma foldl_max_Max:
  fixes f :: "'a \<Rightarrow> real"
  shows "foldl (\<lambda>m x. max m (f x)) a xs = Max (insert a (f ` set xs))"
proof (induction xs arbitrary: a)
  case Nil
  then show ?case by simp
next
  case (Cons x xs)
  have "Max (insert (max a (f x)) (f ` set xs)) = Max (insert a (insert (f x) (f ` set xs)))"
  proof (cases "set xs = {}")
    case True
    then show ?thesis by (simp add: max.commute)
  next
    case False
    then show ?thesis by (simp add: max.assoc)
  qed
  then show ?case using Cons.IH [of "max a (f x)"] by simp
qed

lemma compute_killzone_penalty_Max:
  assumes "kzs \<noteq> []"
  shows "compute_killzone_penalty hav lat lon (Some kzs)
       = Max ((\<lambda>kz. zone_penalty (hav lat lon (fst (center kz)) (snd (center kz))) (radius_km kz))
               ` set kzs)"
proof -
  let ?f = "\<lambda>kz. zone_penalty (hav lat lon (fst (center kz)) (snd (center kz))) (radius_km kz)"
  have ne: "?f ` set kzs \<noteq> {}" using assms by simp
  have "1 \<le> Max (?f ` set kzs)"
  proof -
    obtain kz where "kz \<in> set kzs" using assms by (cases kzs) auto
    then have "?f kz \<le> Max (?f ` set kzs)" by simp
    then show ?thesis using zone_penalty_ge_1 [of "hav lat lon (fst (center kz)) (snd (center kz))" "radius_km kz"]
      by linarith
  qed
  then have "Max (insert 1 (?f ` set kzs)) = Max (?f ` set kzs)"
    using ne by (simp add: max_def)
  then show ?thesis
    using assms by (simp add: compute_killzone_penalty_def foldl_max_Max)
qed

lemma compute_killzone_penalty_ge_1: "1 \<le> compute_killzone_penalty hav lat lon kill_zones"
proof (cases kill_zones)
  case None
  then show ?thesis by (simp add: compute_killzone_penalty_def)
next
  case (Some kzs)
  then show ?thesis
    by (simp add: compute_killzone_penalty_def foldl_max_Max)
qed

text \<open>
  Claim C2, as the code has it. For a non-empty kill-zone list the penalty is the
  maximum over the zones of the per-zone penalty and is at least 1. The per-zone
  penalty is 1000 for \<open>d < r\<close>, \<open>50 * exp (3 * (1 - (d - r) / (0.5 * r)))\<close> for
  \<open>r \<le> d < 1.5 * r\<close>, 10 for \<open>1.5 * r \<le> d < 2 * r\<close> and 1 for \<open>d \<ge> 2 * r\<close>
  (\<open>d \<ge> 0\<close>); it is strictly decreasing in \<open>d\<close> inside the exponential band and
  constant inside each of the three other bands.
\<close>

theorem killzone_penalty_max_and_bands:
  assumes "kzs \<noteq> []"
  shows "compute_killzone_penalty hav lat lon (Some kzs)
           = Max ((\<lambda>kz. zone_penalty (hav lat lon (fst (center kz)) (snd (center kz)))
                          (radius_km kz)) ` set kzs)
       \<and> 1 \<le> compute_killzone_penalty hav lat lon (Some kzs)
       \<and> (\<forall>d r. 1 \<le> zone_penalty d r)
       \<and> (\<forall>d r. d < r \<longrightarrow> zone_penalty d r = 1000)
       \<and> (\<forall>d r. r \<le> d \<and> d < r * (15/10) \<longrightarrow>
             zone_penalty d r = 50 * exp (3 * (1 - (d - r) / (r * (5/10)))))
       \<and> (\<forall>d r. r * (15/10) \<le> d \<and> d < r * 2 \<longrightarrow> zone_penalty d r = 10)
       \<and> (\<forall>d r. 0 \<le> d \<and> r * 2 \<le> d \<longrightarrow> zone_penalty d r = 1)
       \<and> (\<forall>d1 d2 r. r \<le> d1 \<and> d1 < d2 \<and> d2 < r * (15/10) \<longrightarrow>
             zone_penalty d2 r < zone_penalty d1 r)"
  using compute_killzone_penalty_Max [OF assms] compute_killzone_penalty_ge_1
    zone_penalty_ge_1 zone_penalty_inside zone_penalty_near zone_penalty_buffer
    zone_penalty_far zone_penalty_near_decreasing
  by blast

theorem killzone_penalty_max_and_bands_witness:
  "compute_killzone_penalty (\<lambda>lat lon clat clon. \<bar>lat - clat\<bar> + \<bar>lon - clon\<bar>) 0 0
     (Some [\<lparr>center = (0, 0), radius_km = 1\<rparr>, \<lparr>center = (10, 10), radius_km = 2\<rparr>]) = 1000
   \<and> zone_penalty (5/4) 1 < zone_penalty 1 1
   \<and> zone_penalty (7/4) 1 = 10
   \<and> zone_penalty 3 1 = 1"
  using killzone_penalty_max_and_bands
          [of "[\<lparr>center = (0, 0), radius_km = 1\<rparr>, \<lparr>center = (10, 10), radius_km = 2\<rparr>]"
              "\<lambda>lat lon clat clon. \<bar>lat - clat\<bar> + \<bar>lon - clon\<bar>" 0 0]
  by (simp add: zone_penalty_def)

text \<open>
  Inside the innermost band the penalty is the constant 1000: two different distances
  below the radius give the same penalty, so it is not strictly decreasing there. The
  distance function of the example is the taxicab distance in degrees.
\<close>

theorem killzone_penalty_not_strictly_decreasing:
  "(0::real) < 1/2 \<and> (1/2::real) < 1
   \<and> zone_penalty 0 1 = 1000 \<and> zone_penalty (1/2) 1 = 1000
   \<and> \<not> zone_penalty (1/2) 1 < zone_penalty 0 1
   \<and> compute_killzone_penalty (\<lambda>lat lon clat clon. \<bar>lat - clat\<bar> + \<bar>lon - clon\<bar>) 0 0
        (Some [\<lparr>center = (0, 0), radius_km = 1\<rparr>]) = 1000
   \<and> compute_killzone_penalty (\<lambda>lat lon clat clon. \<bar>lat - clat\<bar> + \<bar>lon - clon\<bar>) (1/2) 0
        (Some [\<lparr>center = (0, 0), radius_km = 1\<rparr>]) = 1000"
  by (simp add: zone_penalty_def compute_killzone_penalty_def)

section \<open>Properties of the router operations\<close>

lemma build_route_result_fields:
  assumes "build_route_result g np scenarios cargo_value m = Inr res"
  shows "method_tag res = m \<and> node_path res = np"
  using assms
  by (auto simp: build_route_result_def Let_def split: sum.splits prod.splits)

lemma shortest_time_method:
  assumes "fst (shortest_time nx self r origin destination) = Inr res"
  shows "method_tag res = ''shortest_time''"
proof (cases "nx (graph self) origin destination (ByKey ''travel_time_hours'')")
  case (Inl e)
  then show ?thesis
    using assms by (cases e) (auto simp: shortest_time_def empty_result_def)
next
  case (Inr np)
  then show ?thesis
    using assms build_route_result_fields
    by (auto simp: shortest_time_def split: prod.splits)
qed

lemma shortest_time_no_path:
  assumes "nx (graph self) origin destination (ByKey ''travel_time_hours'') = Inl NetworkXNoPath"
  shows "shortest_time nx self r origin destination = (Inr (empty_result ''shortest_time''), self, r)"
  using assms by (simp add: shortest_time_def)

lemma shortest_distance_no_path:
  assumes "nx (graph self) origin destination (ByKey ''distance_km'') = Inl NetworkXNoPath"
  shows "shortest_distance nx self r origin destination
           = (Inr (empty_result ''shortest_distance''), self, r)"
  using assms by (simp add: shortest_distance_def)

lemma mean_risk_route_no_path:
  assumes "nx (assign_risk_weights cargo_value (graph self)) origin destination
             (ByKey ''risk_weight'') = Inl NetworkXNoPath"
  shows "mean_risk_route nx self r origin destination cargo_value
           = (Inr (empty_result ''mean_risk''),
              self\<lparr>graph := assign_risk_weights cargo_value (graph self)\<rparr>, r)"
  using assms by (simp add: mean_risk_route_def Let_def)

lemma assign_risk_weights_nodes: "nodes (assign_risk_weights c g) = nodes g"
  by (simp add: assign_risk_weights_def)

lemma assign_risk_weights_has_edge:
  "edges (assign_risk_weights c g) e \<noteq> None \<longleftrightarrow> edges g e \<noteq> None"
  by (simp add: assign_risk_weights_def)

lemma reachable_assign_risk_weights:
  "reachable (assign_risk_weights c g) u v \<longleftrightarrow> reachable g u v"
proof
  assume "reachable (assign_risk_weights c g) u v"
  then show "reachable g u v"
  proof (induction rule: reachable.induct)
    case (reachable_here u)
    show ?case by (rule reachable.reachable_here)
  next
    case (reachable_step u v w)
    then show ?case
      using assign_risk_weights_has_edge reachable.reachable_step by blast
  qed
next
  assume "reachable g u v"
  then show "reachable (assign_risk_weights c g) u v"
  proof (induction rule: reachable.induct)
    case (reachable_here u)
    show ?case by (rule reachable.reachable_here)
  next
    case (reachable_step u v w)
    then show ?case
      using assign_risk_weights_has_edge reachable.reachable_step by blast
  qed
qed

text \<open>
  Claim C7. For an origin and a destination that are nodes of the graph with no directed
  path between them (networkx then raises NetworkXNoPath), each of
  \<open>shortest_distance\<close>, \<open>shortest_time\<close> and \<open>mean_risk\<close> returns the empty result
  tagged with the name of the operation: both paths are empty and every numeric field is
  zero.
\<close>

theorem no_path_returns_empty_result:
  assumes "raises_no_path nx"
    and "origin \<in> dom (nodes (graph self))" and "destination \<in> dom (nodes (graph self))"
    and "\<not> reachable (graph self) origin destination"
  shows "fst (shortest_distance nx self r origin destination)
           = Inr (empty_result ''shortest_distance'')
       \<and> fst (shortest_time nx self r origin destination) = Inr (empty_result ''shortest_time'')
       \<and> fst (mean_risk_route nx self r origin destination cargo_value)
           = Inr (empty_result ''mean_risk'')
       \<and> (\<forall>m. path (empty_result m) = [] \<and> node_path (empty_result m) = []
              \<and> waypoints (empty_result m) = []
              \<and> time_minutes (empty_result m) = 0 \<and> distance_km (empty_result m) = 0
              \<and> mean_risk (empty_result m) = 0 \<and> cvar_95 (empty_result m) = 0
              \<and> cvar_99 (empty_result m) = 0 \<and> survival_probability (empty_result m) = 0
              \<and> method_tag (empty_result m) = m)"
proof -
  have d: "nx (graph self) origin destination (ByKey ''distance_km'') = Inl NetworkXNoPath"
    using assms unfolding raises_no_path_def by blast
  have t: "nx (graph self) origin destination (ByKey ''travel_time_hours'') = Inl NetworkXNoPath"
    using assms unfolding raises_no_path_def by blast
  have "\<not> reachable (assign_risk_weights cargo_value (graph self)) origin destination"
    using assms(4) by (simp add: reachable_assign_risk_weights)
  then have m: "nx (assign_risk_weights cargo_value (graph self)) origin destination
                  (ByKey ''risk_weight'') = Inl NetworkXNoPath"
    using assms(1-3) unfolding raises_no_path_def
    by (simp add: assign_risk_weights_nodes)
  show ?thesis
    using d t m
    by (simp add: shortest_distance_no_path shortest_time_no_path
        mean_risk_route_no_path empty_result_def)
qed

lemma direct_search_raises_no_path: "raises_no_path direct_search"
proof -
  have "direct_search g s t w = Inl NetworkXNoPath" if "\<not> reachable g s t" for g s t w
  proof -
    have "s \<noteq> t" using that reachable_here by auto
    moreover have "edges g (s, t) = None"
    proof (rule ccontr)
      assume "edges g (s, t) \<noteq> None"
      then have "reachable g s t" using reachable_here [of g t] by (rule reachable_step)
      with that show False by simp
    qed
    ultimately show ?thesis by (simp add: direct_search_def)
  qed
  then show ?thesis unfolding raises_no_path_def by blast
qed

lemma simple_graph_forward:
  assumes "reachable simple_graph u v"
  shows "u \<le> v"
  using assms
proof (induction rule: reachable.induct)
  case (reachable_here u)
  show ?case by simp
next
  case (reachable_step u v w)
  from reachable_step.hyps(1) have "u < v"
    by (auto simp: simple_graph_def split: if_splits)
  with reachable_step.IH show ?case by simp
qed

theorem no_path_returns_empty_result_witness:
  "fst (shortest_distance direct_search
          \<lparr>graph = simple_graph, alpha = 95/100, num_scenarios = 10\<rparr> fixed_rng 3 0)
     = Inr (empty_result ''shortest_distance'')
   \<and> fst (shortest_time direct_search
          \<lparr>graph = simple_graph, alpha = 95/100, num_scenarios = 10\<rparr> fixed_rng 3 0)
     = Inr (empty_result ''shortest_time'')
   \<and> fst (mean_risk_route direct_search
          \<lparr>graph = simple_graph, alpha = 95/100, num_scenarios = 10\<rparr> fixed_rng 3 0 7)
     = Inr (empty_result ''mean_risk'')"
proof -
  let ?self = "\<lparr>graph = simple_graph, alpha = 95/100, num_scenarios = 10\<rparr>"
  have n3: "3 \<in> dom (nodes (graph ?self))" by (simp add: simple_graph_def)
  have n0: "0 \<in> dom (nodes (graph ?self))" by (simp add: simple_graph_def)
  have un: "\<not> reachable (graph ?self) 3 0"
    using simple_graph_forward [of 3 0] by auto
  show ?thesis
    using no_path_returns_empty_result [OF direct_search_raises_no_path n3 n0 un, of fixed_rng 7]
    by simp
qed

lemma walk_chain:
  assumes "walk edge_dict destination fuel current p = Some q"
    and "p \<noteq> []" and "last p = current"
    and "\<forall>i. Suc i < length p \<longrightarrow> edge_dict (p ! i) = Some (p ! Suc i)"
  shows "q \<noteq> [] \<and> hd q = hd p
       \<and> (\<forall>i. Suc i < length q \<longrightarrow> edge_dict (q ! i) = Some (q ! Suc i))"
  using assms
proof (induction edge_dict destination fuel current p rule: walk.induct)
  case (1 edge_dict destination current p)
  then show ?case by simp
next
  case (2 edge_dict destination fuel current p)
  show ?case
  proof (cases "current = destination")
    case True
    with "2.prems" show ?thesis by simp
  next
    case False
    with "2.prems"(1) obtain nxt where nxt: "edge_dict current = Some nxt"
      and w: "walk edge_dict destination fuel nxt (p @ [nxt]) = Some q"
      by (auto split: option.splits)
    have chain: "\<forall>i. Suc i < length (p @ [nxt])
                   \<longrightarrow> edge_dict ((p @ [nxt]) ! i) = Some ((p @ [nxt]) ! Suc i)"
    proof (intro allI impI)
      fix i assume i: "Suc i < length (p @ [nxt])"
      show "edge_dict ((p @ [nxt]) ! i) = Some ((p @ [nxt]) ! Suc i)"
      proof (cases "Suc i < length p")
        case True
        then show ?thesis using "2.prems"(4) by (simp add: nth_append)
      next
        case False
        with i have e: "Suc i = length p" by simp
        then have "i = length p - 1" by simp
        then have "(p @ [nxt]) ! i = last p"
          using "2.prems"(2) e by (simp add: nth_append last_conv_nth)
        moreover have "(p @ [nxt]) ! Suc i = nxt" using e by (simp add: nth_append)
        ultimately show ?thesis using nxt "2.prems"(3) by simp
      qed
    qed
    have "q \<noteq> [] \<and> hd q = hd (p @ [nxt])
       \<and> (\<forall>i. Suc i < length q \<longrightarrow> edge_dict (q ! i) = Some (q ! Suc i))"
      using "2.IH" [OF False nxt w] chain by simp
    then show ?thesis using "2.prems"(2) by simp
  qed
qed

lemma edges_to_path_sound:
  assumes "edges_to_path es origin destination \<noteq> []"
  shows "hd (edges_to_path es origin destination) = origin
       \<and> last (edges_to_path es origin destination) = destination
       \<and> (\<forall>i. Suc i < length (edges_to_path es origin destination) \<longrightarrow>
             (edges_to_path es origin destination ! i,
              edges_to_path es origin destination ! Suc i) \<in> set es)"
proof -
  let ?d = "map_of (rev es)"
  from assms obtain q where w: "walk ?d destination (length es + 1) origin [origin] = Some q"
    and l: "last q = destination" and e: "edges_to_path es origin destination = q"
    by (auto simp: edges_to_path_def split: if_splits option.splits)
  have "q \<noteq> [] \<and> hd q = hd [origin]
      \<and> (\<forall>i. Suc i < length q \<longrightarrow> ?d (q ! i) = Some (q ! Suc i))"
    by (rule walk_chain [OF w]) simp_all
  moreover have "(u, v) \<in> set es" if "?d u = Some v" for u v
    using map_of_SomeD [OF that] by simp
  ultimately show ?thesis using l e by auto
qed

text \<open>
  Claim C3. When the solve is reached and raises, or the selected edges do not
  reconstruct a path (\<open>_edges_to_path\<close> returns the empty list), \<open>optimize\<close> returns
  what \<open>shortest_time\<close> returns for the same router, origin and destination, called
  after the scenario draw of \<open>optimize\<close>; a result returned this way carries the method
  tag \<open>shortest_time\<close>.
\<close>

theorem optimize_falls_back_to_shortest_time:
  assumes "alpha self \<noteq> 1" and "num_scenarios self \<noteq> 0"
    and "generate_scenarios (num_scenarios self) r = (scenarios, r1)"
    and "solver (graph self) scenarios origin destination cargo_value
           weight_time weight_risk (alpha self) = SolveRaised
         \<or> (\<exists>es. solver (graph self) scenarios origin destination cargo_value
                    weight_time weight_risk (alpha self) = Selected es
                 \<and> edges_to_path es origin destination = [])"
  shows "optimize nx solver self r origin destination cargo_value weight_time weight_risk
           = shortest_time nx self r1 origin destination
       \<and> (\<forall>res. fst (optimize nx solver self r origin destination cargo_value
                        weight_time weight_risk) = Inr res
              \<longrightarrow> method_tag res = ''shortest_time'')"
proof -
  have eq: "optimize nx solver self r origin destination cargo_value weight_time weight_risk
              = shortest_time nx self r1 origin destination"
    using assms by (auto simp: optimize_def)
  show ?thesis
    unfolding eq using shortest_time_method by blast
qed

theorem optimize_falls_back_to_shortest_time_witness:
  "optimize direct_search (\<lambda>g sc s t c wt wr al. SolveRaised)
       \<lparr>graph = simple_graph, alpha = 95/100, num_scenarios = 10\<rparr> fixed_rng 0 3 7 (1/2) (1/2)
     = shortest_time direct_search \<lparr>graph = simple_graph, alpha = 95/100, num_scenarios = 10\<rparr>
         (snd (generate_scenarios 10 fixed_rng)) 0 3
   \<and> optimize direct_search (\<lambda>g sc s t c wt wr al. Selected [(0, 1)])
       \<lparr>graph = simple_graph, alpha = 95/100, num_scenarios = 10\<rparr> fixed_rng 0 3 7 (1/2) (1/2)
     = shortest_time direct_search \<lparr>graph = simple_graph, alpha = 95/100, num_scenarios = 10\<rparr>
         (snd (generate_scenarios 10 fixed_rng)) 0 3
   \<and> edges_to_path [(0, 1)] 0 3 = []"
proof -
  let ?self = "\<lparr>graph = simple_graph, alpha = 95/100, num_scenarios = 10\<rparr>"
  have a: "alpha ?self \<noteq> 1" by simp
  have n: "num_scenarios ?self \<noteq> 0" by simp
  have g: "generate_scenarios (num_scenarios ?self) fixed_rng
             = (fst (generate_scenarios 10 fixed_rng), snd (generate_scenarios 10 fixed_rng))"
    by simp
  have e: "edges_to_path [(0, 1)] 0 3 = []"
    by (simp add: edges_to_path_def numeral_2_eq_2)
  show ?thesis
    using optimize_falls_back_to_shortest_time
            [OF a n g, of "\<lambda>g sc s t c wt wr al. SolveRaised" 0 3 7 "1/2" "1/2" direct_search]
          optimize_falls_back_to_shortest_time
            [OF a n g, of "\<lambda>g sc s t c wt wr al. Selected [(0, 1)]" 0 3 7 "1/2" "1/2" direct_search]
          e
    by simp
qed

section \<open>Waypoints of a route result\<close>

lemma waypoint_loop_eta:
  assumes "waypoint_loop g n k total_time ixs wps = Inr out"
    and "\<forall>w\<in>set wps. eta_hours w = total_time"
  shows "\<forall>w\<in>set out. eta_hours w = total_time"
  using assms
proof (induction g n k total_time ixs wps rule: waypoint_loop.induct)
  case (1 g n k total_time wps)
  then show ?case by simp
next
  case (2 g n k total_time i nd rest wps)
  show ?case
  proof (cases "i = 0 \<or> int i = int n - 1 \<or> i mod k = 0")
    case True
    with "2.prems"(1) obtain lat lon where pos: "node_pos g nd = Inr (lat, lon)"
      by (auto split: sum.splits)
    let ?w = "\<lparr>latitude = lat, longitude = lon,
                name = (if i = 0 then ''Origin''
                        else if int i = int n - 1 then ''Destination''
                        else ''Waypoint '' @ str_nat (length wps)),
                eta_hours = total_time, instructions = [], risk_level = 0\<rparr>"
    have run: "waypoint_loop g n k total_time rest (wps @ [?w]) = Inr out"
      using "2.prems"(1) True pos by simp
    have inv: "\<forall>w\<in>set (wps @ [?w]). eta_hours w = total_time"
      using "2.prems"(2) by simp
    show ?thesis
      by (rule "2.IH"(1) [OF True pos refl run inv])
  next
    case False
    then have run: "waypoint_loop g n k total_time rest wps = Inr out"
      using "2.prems"(1) by simp
    show ?thesis
      by (rule "2.IH"(2) [OF False run "2.prems"(2)])
  qed
qed

text \<open>
  The waypoints are placed, in path order, at the nodes with index 0, with the last
  index, and with an index divisible by \<open>max(1, len(node_path) // 10)\<close>.
\<close>

lemma waypoint_loop_positions:
  assumes "waypoint_loop g n k total_time ixs wps = Inr out"
  shows "map (\<lambda>w. Inr (latitude w, longitude w)) out
       = map (\<lambda>w. Inr (latitude w, longitude w)) wps
         @ map (\<lambda>(i, nd). node_pos g nd)
             (filter (\<lambda>(i, nd). i = 0 \<or> int i = int n - 1 \<or> i mod k = 0) ixs)"
  using assms
proof (induction g n k total_time ixs wps rule: waypoint_loop.induct)
  case (1 g n k total_time wps)
  then show ?case by simp
next
  case (2 g n k total_time i nd rest wps)
  show ?case
  proof (cases "i = 0 \<or> int i = int n - 1 \<or> i mod k = 0")
    case True
    with "2.prems" obtain lat lon where pos: "node_pos g nd = Inr (lat, lon)"
      by (auto split: sum.splits)
    let ?w = "\<lparr>latitude = lat, longitude = lon,
                name = (if i = 0 then ''Origin''
                        else if int i = int n - 1 then ''Destination''
                        else ''Waypoint '' @ str_nat (length wps)),
                eta_hours = total_time, instructions = [], risk_level = 0\<rparr>"
    have run: "waypoint_loop g n k total_time rest (wps @ [?w]) = Inr out"
      using "2.prems" True pos by simp
    show ?thesis
      using "2.IH"(1) [OF True pos refl run] True pos by simp
  next
    case False
    then have run: "waypoint_loop g n k total_time rest wps = Inr out"
      using "2.prems" by simp
    show ?thesis
      using "2.IH"(2) [OF False run] False by simp
  qed
qed

lemma waypoints_selected_nodes:
  assumes "build_route_result g np scenarios cargo_value m = Inr res"
  shows "map (\<lambda>w. Inr (latitude w, longitude w)) (waypoints res)
       = map (\<lambda>(i, nd). node_pos g nd)
           (filter (\<lambda>(i, nd). i = 0 \<or> int i = int (length np) - 1
                                \<or> i mod (max 1 (length np div 10)) = 0)
              (zip [0..<length np] np))"
proof -
  from assms obtain tt wps where
      w: "waypoint_loop g (length np) (max 1 (length np div 10)) tt (zip [0..<length np] np) []
            = Inr wps"
    and res: "waypoints res = wps"
    by (auto simp: build_route_result_def Let_def split: sum.splits prod.splits)
  show ?thesis
    using waypoint_loop_positions [OF w] res by simp
qed

text \<open>
  Claim C4, what the code does instead: every waypoint of a route result carries the
  total travel time of the whole route as its \<open>eta_hours\<close>, the origin included.
\<close>

theorem waypoint_eta_is_total_time:
  assumes "build_route_result g np scenarios cargo_value m = Inr res"
  shows "\<forall>w\<in>set (waypoints res). eta_hours w = time_minutes res / 60"
proof -
  from assms obtain pc tt td wps where
      w: "waypoint_loop g (length np) (max 1 (length np div 10)) tt (zip [0..<length np] np) []
            = Inr wps"
    and res: "waypoints res = wps" "time_minutes res = tt * 60"
    by (auto simp: build_route_result_def Let_def split: sum.splits prod.splits)
  have "\<forall>w\<in>set wps. eta_hours w = tt"
    by (rule waypoint_loop_eta [OF w]) simp
  then show ?thesis using res by simp
qed

lemma upt_0_3: "[0..<3] = [0, 1, 2]"
  by (simp add: upt_rec)

lemma upt_0_4: "[0..<4] = [0, 1, 2, 3]"
  by (simp add: upt_rec)

lemma simple_graph_edge_loop:
  "edge_loop simple_graph [0, 1, 2, 3] [0, 1, 2] ([], 0, 0)
     = Inr ([(482/10, 371/10), (4825/100, 3715/100), (483/10, 372/10), (4835/100, 3725/100)],
            3/10, 15)"
  by (simp add: simple_graph_def segment_coords_def endpoint_coords_def node_pos_def get_attr_def)

lemma simple_graph_waypoint_loop:
  "\<exists>wps. waypoint_loop simple_graph 4 1 (3/10) [(0, 0), (1, 1), (2, 2), (3, 3)] [] = Inr wps
     \<and> map name wps = [''Origin'', ''Waypoint 1'', ''Waypoint 2'', ''Destination'']
     \<and> map eta_hours wps = [3/10, 3/10, 3/10, 3/10]"
  by (simp add: simple_graph_def node_pos_def str_nat.simps)

lemma calculate_cvar_singleton:
  assumes "0 < a" "a < 1"
  shows "calculate_cvar [x] a = Inr x"
proof -
  have "\<lfloor>a\<rfloor> = 0" using assms by (simp add: floor_eq_iff)
  then show ?thesis
    using assms
    by (simp add: calculate_cvar_def cvar_var_def cvar_var_index_def py_int_def py_get_def
        tail_risks_def np_mean_def)
qed

theorem waypoint_eta_is_total_time_witness:
  "\<exists>res. build_route_result simple_graph [0, 1, 2, 3]
            [\<lparr>visibility_mult = 1, detection_mult = 1, patrol_presence = 1\<rparr>] 7
            ''shortest_time'' = Inr res
       \<and> time_minutes res = 18
       \<and> map name (waypoints res) = [''Origin'', ''Waypoint 1'', ''Waypoint 2'', ''Destination'']
       \<and> map eta_hours (waypoints res) = [3/10, 3/10, 3/10, 3/10]
       \<and> list_all (\<lambda>w. eta_hours w = time_minutes res / 60) (waypoints res)"
proof -
  let ?sc = "[\<lparr>visibility_mult = 1, detection_mult = 1, patrol_presence = 1\<rparr>]"
  obtain wps where
      w: "waypoint_loop simple_graph 4 1 (3/10) [(0, 0), (1, 1), (2, 2), (3, 3)] [] = Inr wps"
    and nm: "map name wps = [''Origin'', ''Waypoint 1'', ''Waypoint 2'', ''Destination'']"
    and eta: "map eta_hours wps = [3/10, 3/10, 3/10, 3/10]"
    using simple_graph_waypoint_loop by (elim exE conjE) (rule that)
  define risks where "risks = map (\<lambda>s. path_risk simple_graph [0, 1, 2, 3] s 7) ?sc"
  have risks1: "risks = [path_risk simple_graph [0, 1, 2, 3] (hd ?sc) 7]"
    by (simp add: risks_def)
  have c95: "calculate_cvar risks (95/100) = Inr (hd risks)"
    unfolding risks1 by (simp add: calculate_cvar_singleton)
  have c99: "calculate_cvar risks (99/100) = Inr (hd risks)"
    unfolding risks1 by (simp add: calculate_cvar_singleton)
  define res where "res =
     \<lparr>path = [(482/10, 371/10), (4825/100, 3715/100), (483/10, 372/10), (4835/100, 3725/100)],
      node_path = [0, 1, 2, 3], time_minutes = (3/10) * 60, distance_km = 15,
      mean_risk = np_mean risks, cvar_95 = hd risks, cvar_99 = hd risks, waypoints = wps,
      method_tag = ''shortest_time'',
      survival_probability = calculate_survival_probability (hd risks) (1/10)\<rparr>"
  have el: "edge_loop simple_graph [0, 1, 2, 3] [0..<length [0, 1, 2, 3::int] - 1] ([], 0, 0)
     = Inr ([(482/10, 371/10), (4825/100, 3715/100), (483/10, 372/10), (4835/100, 3725/100)],
            3/10, 15)"
  proof -
    have "length [0, 1, 2, 3::int] - 1 = 3" by simp
    then show ?thesis by (simp only: upt_0_3 simple_graph_edge_loop)
  qed
  have wl: "waypoint_loop simple_graph (length [0, 1, 2, 3::int])
              (max 1 (length [0, 1, 2, 3::int] div 10)) (3/10)
              (zip [0..<length [0, 1, 2, 3::int]] [0, 1, 2, 3]) [] = Inr wps"
  proof -
    have "length [0, 1, 2, 3::int] = 4" by simp
    moreover have "max 1 (4 div 10) = (1::nat)" by simp
    moreover have "zip [0, 1, 2, 3::nat] [0, 1, 2, 3::int] = [(0, 0), (1, 1), (2, 2), (3, 3)]"
      by simp
    ultimately show ?thesis by (simp only: upt_0_4 w)
  qed
  have br: "build_route_result simple_graph [0, 1, 2, 3] ?sc 7 ''shortest_time'' = Inr res"
    apply (simp only: build_route_result_def el sum.case prod.case)
    apply (simp only: wl sum.case Let_def risks_def [symmetric] c95 c99)
    apply (simp add: res_def)
    done
  have flds: "waypoints res = wps" "time_minutes res = 18"
    by (simp_all add: res_def)
  have "\<forall>w\<in>set (waypoints res). eta_hours w = time_minutes res / 60"
    by (rule waypoint_eta_is_total_time [OF br])
  then have every: "list_all (\<lambda>w. eta_hours w = time_minutes res / 60) (waypoints res)"
    by (simp only: list_all_iff)
  show ?thesis
  proof (intro exI [of _ res] conjI)
    show "build_route_result simple_graph [0, 1, 2, 3] ?sc 7 ''shortest_time'' = Inr res"
      by (rule br)
    show "time_minutes res = 18" by (rule flds(2))
    show "map name (waypoints res) = [''Origin'', ''Waypoint 1'', ''Waypoint 2'', ''Destination'']"
      by (simp only: flds(1) nm)
    show "map eta_hours (waypoints res) = [3/10, 3/10, 3/10, 3/10]"
      by (simp only: flds(1) eta)
    show "list_all (\<lambda>w. eta_hours w = time_minutes res / 60) (waypoints res)"
      by (rule every)
  qed
qed

section \<open>Scenario generation and the random generator\<close>

lemma generate_scenarios_state:
  "floats (snd (generate_scenarios n r)) = floats r
   \<and> ints (snd (generate_scenarios n r)) = ints r
   \<and> cursor (snd (generate_scenarios n r)) = cursor r + 3 * n
   \<and> length (fst (generate_scenarios n r)) = n"
proof (induction n arbitrary: r)
  case 0
  show ?case by simp
next
  case (Suc n)
  let ?r3 = "r\<lparr>cursor := Suc (Suc (Suc (cursor r)))\<rparr>"
  have "snd (generate_scenarios (Suc n) r) = snd (generate_scenarios n ?r3)"
    and "length (fst (generate_scenarios (Suc n) r)) = Suc (length (fst (generate_scenarios n ?r3)))"
    by (simp_all add: np_uniform_def np_choice_def split: prod.splits)
  then show ?case using Suc.IH [of ?r3] by simp
qed

lemma generate_scenarios_same_draws:
  assumes "\<forall>i<3 * n. floats r (cursor r + i) = floats r' (cursor r' + i)
                   \<and> ints r (cursor r + i) = ints r' (cursor r' + i)"
  shows "fst (generate_scenarios n r) = fst (generate_scenarios n r')"
  using assms
proof (induction n arbitrary: r r')
  case 0
  show ?case by simp
next
  case (Suc n)
  let ?r3 = "r\<lparr>cursor := Suc (Suc (Suc (cursor r)))\<rparr>"
  let ?r3' = "r'\<lparr>cursor := Suc (Suc (Suc (cursor r')))\<rparr>"
  have d0: "floats r (cursor r) = floats r' (cursor r')"
    using Suc.prems [rule_format, of 0] by simp
  have d1: "floats r (Suc (cursor r)) = floats r' (Suc (cursor r'))"
    using Suc.prems [rule_format, of 1] by simp
  have d2: "ints r (Suc (Suc (cursor r))) = ints r' (Suc (Suc (cursor r')))"
    using Suc.prems [rule_format, of 2] by simp
  have rest: "\<forall>i<3 * n. floats ?r3 (cursor ?r3 + i) = floats ?r3' (cursor ?r3' + i)
                      \<and> ints ?r3 (cursor ?r3 + i) = ints ?r3' (cursor ?r3' + i)"
  proof (intro allI impI)
    fix i assume "i < 3 * n"
    then have "3 + i < 3 * Suc n" by simp
    from Suc.prems [rule_format, OF this]
    show "floats ?r3 (cursor ?r3 + i) = floats ?r3' (cursor ?r3' + i)
        \<and> ints ?r3 (cursor ?r3 + i) = ints ?r3' (cursor ?r3' + i)"
      by (simp add: numeral_3_eq_3)
  qed
  have tl: "fst (generate_scenarios n ?r3) = fst (generate_scenarios n ?r3')"
    by (rule Suc.IH [OF rest])
  show ?case
    using d0 d1 d2 tl
    by (auto simp: np_uniform_def np_choice_def split: prod.splits)
qed

text \<open>
  Claim C5, as the code has it. \<open>_generate_scenarios\<close> takes no seed. Its result is
  determined by \<open>num_scenarios\<close> and the next \<open>3 * num_scenarios\<close> draws of the
  process-wide generator: two generator states that agree on those draws give the same
  scenario list, and the call leaves the generator advanced by that many draws.
\<close>

theorem scenarios_determined_by_generator_state:
  assumes "\<forall>i<3 * n. floats r (cursor r + i) = floats r' (cursor r' + i)
                   \<and> ints r (cursor r + i) = ints r' (cursor r' + i)"
  shows "fst (generate_scenarios n r) = fst (generate_scenarios n r')
       \<and> length (fst (generate_scenarios n r)) = n
       \<and> cursor (snd (generate_scenarios n r)) = cursor r + 3 * n"
  using generate_scenarios_same_draws [OF assms] generate_scenarios_state [of n r]
  by simp

theorem scenarios_determined_by_generator_state_witness:
  "fst (generate_scenarios 1 fixed_rng)
     = fst (generate_scenarios 1
              \<lparr>floats = (\<lambda>i. if i < 3 then 1/2 else 0), ints = (\<lambda>i. if i < 3 then i else 0),
               cursor = 0\<rparr>)
   \<and> length (fst (generate_scenarios 1 fixed_rng)) = 1
   \<and> cursor (snd (generate_scenarios 1 fixed_rng)) = 3"
proof -
  let ?r' = "\<lparr>floats = (\<lambda>i. if i < 3 then 1/2 else 0), ints = (\<lambda>i. if i < 3 then i else 0),
               cursor = 0::nat\<rparr>"
  have "\<forall>i<3 * 1. floats fixed_rng (cursor fixed_rng + i) = floats ?r' (cursor ?r' + i)
                 \<and> ints fixed_rng (cursor fixed_rng + i) = ints ?r' (cursor ?r' + i)"
    by (auto simp: fixed_rng_def)
  from scenarios_determined_by_generator_state [OF this]
  have same: "fst (generate_scenarios 1 fixed_rng) = fst (generate_scenarios 1 ?r')
       \<and> length (fst (generate_scenarios 1 fixed_rng)) = 1
       \<and> cursor (snd (generate_scenarios 1 fixed_rng)) = cursor fixed_rng + 3 * 1" .
  have c: "cursor fixed_rng + 3 * 1 = 3" by (simp add: fixed_rng_def)
  show ?thesis using same unfolding c .
qed

text \<open>
  Two calls in a row with the same number of scenarios: the second call continues the
  stream where the first one stopped and returns another scenario list.
\<close>

theorem repeated_scenario_generation_differs:
  "fst (generate_scenarios 1 fixed_rng)
     \<noteq> fst (generate_scenarios 1 (snd (generate_scenarios 1 fixed_rng)))"
  by (simp add: fixed_rng_def np_uniform_def np_choice_def)

section \<open>The zero-sum solve of the Stackelberg layer\<close>

lemma solve_single_route:
  "length payoff_matrix = 1 \<Longrightarrow> solve_zero_sum_game se payoff_matrix = [1]"
  by (simp add: solve_zero_sum_game_def)

lemma solve_no_equilibria:
  "length payoff_matrix \<noteq> 1 \<Longrightarrow> se payoff_matrix (map (map uminus) payoff_matrix) = [] \<Longrightarrow>
     solve_zero_sum_game se payoff_matrix
       = replicate (length payoff_matrix) (1 / real (length payoff_matrix))"
  by (simp add: solve_zero_sum_game_def Let_def)

lemma solve_first_equilibrium:
  "length payoff_matrix \<noteq> 1 \<Longrightarrow>
   se payoff_matrix (map (map uminus) payoff_matrix) = (p, q) # rest \<Longrightarrow>
     solve_zero_sum_game se payoff_matrix = p"
  by (simp add: solve_zero_sum_game_def)

text \<open>
  Claim C8, as the code has it. With exactly one route row the solve returns \<open>[1.0]\<close>;
  with another number of rows and no equilibrium enumerated it returns the uniform
  distribution over the rows; otherwise it returns the attacker strategy of the first
  equilibrium that the enumeration yields, whatever the payoff matrix.
\<close>

theorem zero_sum_game_cases:
  "(length payoff_matrix = 1 \<longrightarrow> solve_zero_sum_game se payoff_matrix = [1])
   \<and> (length payoff_matrix \<noteq> 1 \<and> se payoff_matrix (map (map uminus) payoff_matrix) = []
        \<longrightarrow> solve_zero_sum_game se payoff_matrix
              = replicate (length payoff_matrix) (1 / real (length payoff_matrix)))
   \<and> (\<forall>p q rest. length payoff_matrix \<noteq> 1
          \<and> se payoff_matrix (map (map uminus) payoff_matrix) = (p, q) # rest
        \<longrightarrow> solve_zero_sum_game se payoff_matrix = p)"
  using solve_single_route solve_no_equilibria solve_first_equilibrium by blast

theorem zero_sum_game_cases_witness:
  "solve_zero_sum_game (\<lambda>A B. []) [[- 1/2, - 1/4]] = [1]
   \<and> solve_zero_sum_game (\<lambda>A B. []) [[- 1/2, - 1/4], [- 1/4, - 1/2]] = [1/2, 1/2]
   \<and> solve_zero_sum_game (\<lambda>A B. [([1/3, 2/3], [1/2, 1/2])]) [[- 1/2, - 1/4], [- 1/4, - 1/2]]
       = [1/3, 2/3]"
  using zero_sum_game_cases [of "[[- 1/2, - 1/4]]" "\<lambda>A B. []"]
    zero_sum_game_cases [of "[[- 1/2, - 1/4], [- 1/4, - 1/2]]" "\<lambda>A B. []"]
    zero_sum_game_cases [of "[[- 1/2, - 1/4], [- 1/4, - 1/2]]"
                            "\<lambda>A B. [([1/3, 2/3], [1/2, 1/2])]"]
  by (simp add: numeral_2_eq_2)

text \<open>
  For the 2 x 2 payoff matrix with all entries \<open>-0.5\<close> the pure profile
  \<open>([1, 0], [1, 0])\<close> is an equilibrium; when the enumeration yields it first, as a
  support enumeration that starts from the pure supports does, the solve returns
  \<open>[1, 0]\<close>, which is not uniform.
\<close>

theorem uniform_payoff_not_uniform_strategy:
  "list_all (list_all (\<lambda>x. x = - 1/2)) [[- 1/2, - 1/2], [- 1/2, - 1/2]]
   \<and> is_equilibrium [[- 1/2, - 1/2], [- 1/2, - 1/2]]
        (map (map uminus) [[- 1/2, - 1/2], [- 1/2, - 1/2]]) ([1, 0], [1, 0])
   \<and> solve_zero_sum_game (\<lambda>A B. [([1, 0], [1, 0])]) [[- 1/2, - 1/2], [- 1/2, - 1/2]] = [1, 0]
   \<and> \<not> uniform_within
          (solve_zero_sum_game (\<lambda>A B. [([1, 0], [1, 0])]) [[- 1/2, - 1/2], [- 1/2, - 1/2]]) 2"
  by (simp add: solve_zero_sum_game_def is_equilibrium_def is_distribution_def row_payoff_def
      column_payoff_def uniform_within_def upt_rec numeral_2_eq_2)

section \<open>What the solver operations change in the graph\<close>

lemma same_except_refl: "same_except keys g g"
  by (auto simp: same_except_def)

lemma same_except_edges:
  assumes "same_except K g g'"
  shows "(edges g' e = None) = (edges g e = None)"
proof -
  from assms have "\<forall>e. (edges g' e = None) = (edges g e = None)"
    unfolding same_except_def by (intro allI) (elim conjE allE, assumption)
  then show ?thesis ..
qed

lemma same_except_data:
  assumes "same_except K g g'" and "edges g e = Some d" and "edges g' e = Some d'"
  shows "geometry d' = geometry d \<and> tags d' = tags d \<and> (\<forall>k. k \<notin> K \<longrightarrow> attrs d' k = attrs d k)"
proof -
  from assms(1) have "\<forall>d d'. edges g e = Some d \<and> edges g' e = Some d' \<longrightarrow>
      geometry d' = geometry d \<and> tags d' = tags d \<and> (\<forall>k. k \<notin> K \<longrightarrow> attrs d' k = attrs d k)"
    unfolding same_except_def by (elim conjE allE [of _ e])
  then show ?thesis using assms(2,3) by blast
qed

lemma same_except_nodes: "same_except K g g' \<Longrightarrow> nodes g' = nodes g"
  unfolding same_except_def by (elim conjE)

lemma same_except_trans:
  assumes "same_except K1 g1 g2" and "same_except K2 g2 g3"
  shows "same_except (K1 \<union> K2) g1 g3"
  unfolding same_except_def
proof (intro conjI allI impI)
  show "nodes g3 = nodes g1"
    using same_except_nodes [OF assms(1)] same_except_nodes [OF assms(2)] by simp
next
  fix e
  show "(edges g3 e = None) = (edges g1 e = None)"
    using same_except_edges [OF assms(1), of e] same_except_edges [OF assms(2), of e] by simp
next
  fix e d d'
  assume h: "edges g1 e = Some d \<and> edges g3 e = Some d'"
  then have "edges g2 e \<noteq> None" using same_except_edges [OF assms(1), of e] by simp
  then obtain d2 where d2: "edges g2 e = Some d2" by auto
  have a: "geometry d2 = geometry d \<and> tags d2 = tags d \<and> (\<forall>k. k \<notin> K1 \<longrightarrow> attrs d2 k = attrs d k)"
    using same_except_data [OF assms(1) _ d2] h by simp
  have b: "geometry d' = geometry d2 \<and> tags d' = tags d2 \<and> (\<forall>k. k \<notin> K2 \<longrightarrow> attrs d' k = attrs d2 k)"
    using same_except_data [OF assms(2) d2] h by simp
  show "geometry d' = geometry d" using a b by simp
  show "tags d' = tags d" using a b by simp
  fix k assume "k \<notin> K1 \<union> K2"
  then show "attrs d' k = attrs d k" using a b by simp
qed

lemma same_except_mono:
  assumes "same_except K g g'" and "K \<subseteq> K'"
  shows "same_except K' g g'"
  using assms unfolding same_except_def by blast

lemma same_except_assign_risk_weights:
  "same_except {''risk_weight''} g (assign_risk_weights c g)"
  by (auto simp: same_except_def assign_risk_weights_def set_risk_weight_def)

lemma same_except_add_temp_penalty:
  "same_except {''temp_penalty''} g (add_temp_penalty pes g)"
  by (auto simp: same_except_def add_temp_penalty_def)

lemma same_except_remove_temp_penalty:
  "same_except {''temp_penalty''} g (remove_temp_penalty pes g)"
  by (auto simp: same_except_def remove_temp_penalty_def)

lemma shortest_distance_router:
  "fst (snd (shortest_distance nx self r origin destination)) = self"
proof (cases "nx (graph self) origin destination (ByKey ''distance_km'')")
  case (Inl e)
  then show ?thesis by (cases e) (simp_all add: shortest_distance_def)
next
  case (Inr np)
  then show ?thesis by (simp add: shortest_distance_def split: prod.splits)
qed

lemma shortest_time_router:
  "fst (snd (shortest_time nx self r origin destination)) = self"
proof (cases "nx (graph self) origin destination (ByKey ''travel_time_hours'')")
  case (Inl e)
  then show ?thesis by (cases e) (simp_all add: shortest_time_def)
next
  case (Inr np)
  then show ?thesis by (simp add: shortest_time_def split: prod.splits)
qed

lemma mean_risk_route_router:
  "fst (snd (mean_risk_route nx self r origin destination c))
     = self\<lparr>graph := assign_risk_weights c (graph self)\<rparr>"
proof (cases "nx (assign_risk_weights c (graph self)) origin destination (ByKey ''risk_weight'')")
  case (Inl e)
  then show ?thesis by (cases e) (simp_all add: mean_risk_route_def Let_def)
next
  case (Inr np)
  then show ?thesis by (simp add: mean_risk_route_def Let_def split: prod.splits)
qed

lemma optimize_router:
  "fst (snd (optimize nx solver self r origin destination c wt wr)) = self"
proof -
  obtain scenarios r1 where g: "generate_scenarios (num_scenarios self) r = (scenarios, r1)"
    by (cases "generate_scenarios (num_scenarios self) r")
  show ?thesis
  proof (cases "solver (graph self) scenarios origin destination c wt wr (alpha self)")
    case SolveRaised
    then show ?thesis using g by (simp add: optimize_def shortest_time_router)
  next
    case ReadRaised
    then show ?thesis using g by (simp add: optimize_def)
  next
    case (Selected es)
    then show ?thesis using g by (simp add: optimize_def Let_def shortest_time_router)
  qed
qed

lemma diverse_loop_graph:
  "same_except {''temp_penalty''} (graph self)
     (graph (fst (snd (diverse_loop nx self r origin destination c k routes))))"
proof (induction nx self r origin destination c k routes rule: diverse_loop.induct)
  case (1 nx self r origin destination c k routes)
  let ?pes = "penalty_edges routes"
  let ?self1 = "self\<lparr>graph := add_temp_penalty ?pes (graph self)\<rparr>"
  let ?self2 = "?self1\<lparr>graph := remove_temp_penalty ?pes (graph ?self1)\<rparr>"
  have s1: "same_except {''temp_penalty''} (graph self) (graph ?self1)"
    by (simp add: same_except_add_temp_penalty)
  have "same_except ({''temp_penalty''} \<union> {''temp_penalty''}) (graph self) (graph ?self2)"
    by (rule same_except_trans [OF s1]) (simp add: same_except_remove_temp_penalty)
  then have s2: "same_except {''temp_penalty''} (graph self) (graph ?self2)" by simp
  show ?case
  proof (cases "int (length routes) < k")
    case False
    then show ?thesis
      by (subst diverse_loop.simps) (simp add: same_except_refl)
  next
    case True
    show ?thesis
    proof (cases "nx (graph ?self1) origin destination (ByFunction penalized_time)")
      case (Inl e)
      then show ?thesis
        using True s1 by (subst diverse_loop.simps) (simp add: Let_def)
    next
      case (Inr dp)
      obtain scenarios r' where g: "generate_scenarios (num_scenarios ?self2) r = (scenarios, r')"
        by (cases "generate_scenarios (num_scenarios ?self2) r")
      show ?thesis
      proof (cases "build_route_result (graph ?self2) dp scenarios c
                      (''diverse_'' @ str_nat (length routes + 1))")
        case (Inl e)
        then show ?thesis
          using True Inr g s2 by (subst diverse_loop.simps) (simp add: Let_def)
      next
        case res: (Inr res)
        show ?thesis
        proof (cases "node_path res \<notin> set (map node_path routes)")
          case False
          then show ?thesis
            using True Inr g res s2 by (subst diverse_loop.simps) (simp add: Let_def)
        next
          case new: True
          have ih: "same_except {''temp_penalty''} (graph ?self2)
                      (graph (fst (snd (diverse_loop nx ?self2 r' origin destination c k
                                          (routes @ [res])))))"
            using "1.IH" [OF True refl refl Inr refl g [symmetric] refl res new] .
          have "same_except ({''temp_penalty''} \<union> {''temp_penalty''}) (graph self)
                  (graph (fst (snd (diverse_loop nx ?self2 r' origin destination c k
                                      (routes @ [res])))))"
            by (rule same_except_trans [OF s2 ih])
          then show ?thesis
            using True Inr g res new by (subst diverse_loop.simps) (simp add: Let_def)
        qed
      qed
    qed
  qed
qed

lemma generate_k_routes_graph:
  "same_except {''risk_weight'', ''temp_penalty''} (graph self)
     (graph (fst (snd (generate_k_routes nx solver self r origin destination c k))))"
proof -
  let ?K = "{''risk_weight'', ''temp_penalty''}"
  have same: "same_except ?K (graph self) (graph self)" by (rule same_except_refl)
  obtain x1 s1 r1 where o: "optimize nx solver self r origin destination c (5/10) (5/10) = (x1, s1, r1)"
    by (cases "optimize nx solver self r origin destination c (5/10) (5/10)") auto
  have s1: "s1 = self" using optimize_router [of nx solver self r origin destination c "5/10" "5/10"] o by simp
  show ?thesis
  proof (cases x1)
    case (Inl e)
    then show ?thesis using o s1 same by (simp add: generate_k_routes_def)
  next
    case baseline: (Inr baseline)
    obtain x2 s2 r2 where t: "shortest_time nx self r1 origin destination = (x2, s2, r2)"
      by (cases "shortest_time nx self r1 origin destination") auto
    have s2: "s2 = self" using shortest_time_router [of nx self r1 origin destination] t by simp
    show ?thesis
    proof (cases x2)
      case (Inl e)
      then show ?thesis using o s1 baseline t s2 same by (simp add: generate_k_routes_def)
    next
      case fastest: (Inr fastest)
      obtain x3 s3 r3 where d: "shortest_distance nx self r2 origin destination = (x3, s3, r3)"
        by (cases "shortest_distance nx self r2 origin destination") auto
      have s3: "s3 = self"
        using shortest_distance_router [of nx self r2 origin destination] d by simp
      show ?thesis
      proof (cases x3)
        case (Inl e)
        then show ?thesis
          using o s1 baseline t s2 fastest d s3 same by (simp add: generate_k_routes_def Let_def)
      next
        case shortest: (Inr shortest)
        obtain x4 s4 r4 where m: "mean_risk_route nx self r3 origin destination c = (x4, s4, r4)"
          by (cases "mean_risk_route nx self r3 origin destination c") auto
        have s4: "s4 = self\<lparr>graph := assign_risk_weights c (graph self)\<rparr>"
          using mean_risk_route_router [of nx self r3 origin destination c] m by simp
        have g4: "same_except {''risk_weight''} (graph self) (graph s4)"
          using s4 by (simp add: same_except_assign_risk_weights)
        show ?thesis
        proof (cases x4)
          case (Inl e)
          have "same_except ?K (graph self) (graph s4)"
            by (rule same_except_mono [OF g4]) simp
          then show ?thesis
            using o s1 baseline t s2 fastest d s3 shortest m Inl
            by (simp add: generate_k_routes_def Let_def)
        next
          case mr: (Inr mr)
          have "same_except ({''risk_weight''} \<union> {''temp_penalty''}) (graph self)
                  (graph (fst (snd (diverse_loop nx s4 r4 origin destination c k routes))))"
            for routes
            by (rule same_except_trans [OF g4 diverse_loop_graph])
          then have dl: "same_except ?K (graph self)
                  (graph (fst (snd (diverse_loop nx s4 r4 origin destination c k routes))))"
            for routes
            by (simp add: insert_commute)
          define routes1 where
            "routes1 = (if node_path fastest \<noteq> node_path baseline
                        then [baseline, fastest] else [baseline])"
          define routes2 where
            "routes2 = (if node_path shortest \<notin> set (map node_path routes1)
                        then routes1 @ [shortest] else routes1)"
          define routes3 where
            "routes3 = (if node_path mr \<notin> set (map node_path routes2)
                        then routes2 @ [mr] else routes2)"
          have "generate_k_routes nx solver self r origin destination c k
                  = (case diverse_loop nx s4 r4 origin destination c k routes3 of
                       (routes4, self5, r5) \<Rightarrow> (Inr (py_take k routes4), self5, r5))"
            unfolding generate_k_routes_def routes3_def routes2_def routes1_def
            by (simp only: o baseline t fastest d shortest m mr s1 s2 s3
                  prod.case sum.case Let_def)
          then have "fst (snd (generate_k_routes nx solver self r origin destination c k))
                  = fst (snd (diverse_loop nx s4 r4 origin destination c k routes3))"
            by (simp add: case_prod_beta)
          then show ?thesis using dl [of routes3] by simp
        qed
      qed
    qed
  qed
qed

lemma mean_risk_route_edges:
  assumes "edges (graph self) e = Some d"
  shows "edges (graph (fst (snd (mean_risk_route nx self r origin destination c)))) e
           = Some (set_risk_weight c d)"
  using assms by (simp add: mean_risk_route_router assign_risk_weights_def)

lemma temp_penalty_reverted:
  assumes "\<forall>e d. edges g e = Some d \<longrightarrow> attrs d ''temp_penalty'' = None"
  shows "remove_temp_penalty pes (add_temp_penalty pes g) = g"
proof (rule digraph.equality)
  show "nodes (remove_temp_penalty pes (add_temp_penalty pes g)) = nodes g"
    by (simp add: remove_temp_penalty_def add_temp_penalty_def)
  show "edges (remove_temp_penalty pes (add_temp_penalty pes g)) = edges g"
  proof (rule ext)
    fix e
    show "edges (remove_temp_penalty pes (add_temp_penalty pes g)) e = edges g e"
    proof (cases "edges g e")
      case None
      then show ?thesis by (simp add: remove_temp_penalty_def add_temp_penalty_def)
    next
      case (Some d)
      then have "attrs d ''temp_penalty'' = None" using assms by blast
      then have "(attrs d)(''temp_penalty'' := None) = attrs d" by (simp add: fun_upd_idem)
      then show ?thesis
        using Some by (simp add: remove_temp_penalty_def add_temp_penalty_def)
    qed
  qed
  show "digraph.more (remove_temp_penalty pes (add_temp_penalty pes g)) = digraph.more g"
    by (simp add: remove_temp_penalty_def add_temp_penalty_def)
qed

lemma assign_risk_weights_clean:
  assumes "\<forall>e d. edges g e = Some d \<longrightarrow> attrs d ''temp_penalty'' = None"
  shows "\<forall>e d. edges (assign_risk_weights c g) e = Some d \<longrightarrow> attrs d ''temp_penalty'' = None"
proof (intro allI impI)
  fix e d'
  assume h: "edges (assign_risk_weights c g) e = Some d'"
  then obtain d where d: "edges g e = Some d" and d': "d' = set_risk_weight c d"
    by (auto simp: assign_risk_weights_def)
  have "attrs d ''temp_penalty'' = None" using assms d by blast
  then show "attrs d' ''temp_penalty'' = None"
    by (simp add: d' set_risk_weight_def)
qed

lemma diverse_loop_restores:
  assumes "\<forall>e d. edges (graph self) e = Some d \<longrightarrow> attrs d ''temp_penalty'' = None"
  shows "fst (snd (diverse_loop nx self r origin destination c k routes)) = self
       \<or> (\<exists>pes e.
             fst (snd (diverse_loop nx self r origin destination c k routes))
               = self\<lparr>graph := add_temp_penalty pes (graph self)\<rparr>
           \<and> nx (add_temp_penalty pes (graph self)) origin destination
                 (ByFunction penalized_time) = Inl e)"
  using assms
proof (induction nx self r origin destination c k routes rule: diverse_loop.induct)
  case (1 nx self r origin destination c k routes)
  let ?pes = "penalty_edges routes"
  let ?self1 = "self\<lparr>graph := add_temp_penalty ?pes (graph self)\<rparr>"
  let ?self2 = "?self1\<lparr>graph := remove_temp_penalty ?pes (graph ?self1)\<rparr>"
  have restored: "?self2 = self"
    using temp_penalty_reverted [OF "1.prems", of ?pes] by simp
  show ?case
  proof (cases "int (length routes) < k")
    case False
    then show ?thesis
      by (subst diverse_loop.simps) simp
  next
    case True
    show ?thesis
    proof (cases "nx (graph ?self1) origin destination (ByFunction penalized_time)")
      case (Inl e)
      then have raised: "nx (add_temp_penalty ?pes (graph self)) origin destination
                           (ByFunction penalized_time) = Inl e"
        by simp
      have "fst (snd (diverse_loop nx self r origin destination c k routes)) = ?self1"
        using True Inl by (subst diverse_loop.simps) (simp add: Let_def)
      then show ?thesis using raised by blast
    next
      case (Inr dp)
      obtain scenarios r' where g: "generate_scenarios (num_scenarios ?self2) r = (scenarios, r')"
        by (cases "generate_scenarios (num_scenarios ?self2) r")
      show ?thesis
      proof (cases "build_route_result (graph ?self2) dp scenarios c
                      (''diverse_'' @ str_nat (length routes + 1))")
        case (Inl e)
        have "fst (snd (diverse_loop nx self r origin destination c k routes)) = ?self2"
          using True Inr g Inl by (subst diverse_loop.simps) (simp add: Let_def)
        then show ?thesis using restored by simp
      next
        case res: (Inr res)
        show ?thesis
        proof (cases "node_path res \<notin> set (map node_path routes)")
          case False
          have "fst (snd (diverse_loop nx self r origin destination c k routes)) = ?self2"
            using True Inr g res False by (subst diverse_loop.simps) (simp add: Let_def)
          then show ?thesis using restored by simp
        next
          case new: True
          have clean2: "\<forall>e d. edges (graph ?self2) e = Some d \<longrightarrow> attrs d ''temp_penalty'' = None"
            using "1.prems" by (simp only: restored)
          have ih: "fst (snd (diverse_loop nx ?self2 r' origin destination c k (routes @ [res])))
                      = ?self2
                  \<or> (\<exists>pes e.
                        fst (snd (diverse_loop nx ?self2 r' origin destination c k
                                    (routes @ [res])))
                          = ?self2\<lparr>graph := add_temp_penalty pes (graph ?self2)\<rparr>
                      \<and> nx (add_temp_penalty pes (graph ?self2)) origin destination
                            (ByFunction penalized_time) = Inl e)"
            using "1.IH" [OF True refl refl Inr refl g [symmetric] refl res new clean2] .
          have step: "fst (snd (diverse_loop nx self r origin destination c k routes))
                  = fst (snd (diverse_loop nx ?self2 r' origin destination c k (routes @ [res])))"
            using True Inr g res new by (subst diverse_loop.simps) (simp add: Let_def)
          show ?thesis
            using ih unfolding step restored .
        qed
      qed
    qed
  qed
qed

lemma generate_k_routes_restores:
  assumes "\<forall>e d. edges (graph self) e = Some d \<longrightarrow> attrs d ''temp_penalty'' = None"
  shows "fst (snd (generate_k_routes nx solver self r origin destination c k)) = self
       \<or> fst (snd (generate_k_routes nx solver self r origin destination c k))
           = self\<lparr>graph := assign_risk_weights c (graph self)\<rparr>
       \<or> (\<exists>pes e.
             fst (snd (generate_k_routes nx solver self r origin destination c k))
               = self\<lparr>graph := add_temp_penalty pes (assign_risk_weights c (graph self))\<rparr>
           \<and> nx (add_temp_penalty pes (assign_risk_weights c (graph self))) origin destination
                 (ByFunction penalized_time) = Inl e)"
proof -
  let ?R = "fst (snd (generate_k_routes nx solver self r origin destination c k))"
  obtain x1 s1 r1 where o: "optimize nx solver self r origin destination c (5/10) (5/10) = (x1, s1, r1)"
    by (cases "optimize nx solver self r origin destination c (5/10) (5/10)") auto
  have s1: "s1 = self"
    using optimize_router [of nx solver self r origin destination c "5/10" "5/10"] o by simp
  show ?thesis
  proof (cases x1)
    case (Inl e)
    then have "?R = self" using o s1 by (simp add: generate_k_routes_def)
    then show ?thesis by simp
  next
    case baseline: (Inr baseline)
    obtain x2 s2 r2 where t: "shortest_time nx self r1 origin destination = (x2, s2, r2)"
      by (cases "shortest_time nx self r1 origin destination") auto
    have s2: "s2 = self" using shortest_time_router [of nx self r1 origin destination] t by simp
    show ?thesis
    proof (cases x2)
      case (Inl e)
      then have "?R = self" using o s1 baseline t s2 by (simp add: generate_k_routes_def)
      then show ?thesis by simp
    next
      case fastest: (Inr fastest)
      obtain x3 s3 r3 where d: "shortest_distance nx self r2 origin destination = (x3, s3, r3)"
        by (cases "shortest_distance nx self r2 origin destination") auto
      have s3: "s3 = self"
        using shortest_distance_router [of nx self r2 origin destination] d by simp
      show ?thesis
      proof (cases x3)
        case (Inl e)
        then have "?R = self"
          using o s1 baseline t s2 fastest d s3 by (simp add: generate_k_routes_def Let_def)
        then show ?thesis by simp
      next
        case shortest: (Inr shortest)
        let ?s4 = "self\<lparr>graph := assign_risk_weights c (graph self)\<rparr>"
        obtain x4 s4 r4 where m: "mean_risk_route nx self r3 origin destination c = (x4, s4, r4)"
          by (cases "mean_risk_route nx self r3 origin destination c") auto
        have s4: "s4 = ?s4"
          using mean_risk_route_router [of nx self r3 origin destination c] m by simp
        show ?thesis
        proof (cases x4)
          case (Inl e)
          then have "?R = ?s4"
            using o s1 baseline t s2 fastest d s3 shortest m s4
            by (simp add: generate_k_routes_def Let_def)
          then show ?thesis by simp
        next
          case mr: (Inr mr)
          define routes1 where
            "routes1 = (if node_path fastest \<noteq> node_path baseline
                        then [baseline, fastest] else [baseline])"
          define routes2 where
            "routes2 = (if node_path shortest \<notin> set (map node_path routes1)
                        then routes1 @ [shortest] else routes1)"
          define routes3 where
            "routes3 = (if node_path mr \<notin> set (map node_path routes2)
                        then routes2 @ [mr] else routes2)"
          have "generate_k_routes nx solver self r origin destination c k
                  = (case diverse_loop nx s4 r4 origin destination c k routes3 of
                       (routes4, self5, r5) \<Rightarrow> (Inr (py_take k routes4), self5, r5))"
            unfolding generate_k_routes_def routes3_def routes2_def routes1_def
            by (simp only: o baseline t fastest d shortest m mr s1 s2 s3
                  prod.case sum.case Let_def)
          then have R: "?R = fst (snd (diverse_loop nx ?s4 r4 origin destination c k routes3))"
            by (simp add: case_prod_beta s4)
          have clean4: "\<forall>e d. edges (graph ?s4) e = Some d \<longrightarrow> attrs d ''temp_penalty'' = None"
            using assign_risk_weights_clean [OF assms, of c] by simp
          have "fst (snd (diverse_loop nx ?s4 r4 origin destination c k routes3)) = ?s4
              \<or> (\<exists>pes e.
                    fst (snd (diverse_loop nx ?s4 r4 origin destination c k routes3))
                      = ?s4\<lparr>graph := add_temp_penalty pes (graph ?s4)\<rparr>
                  \<and> nx (add_temp_penalty pes (graph ?s4)) origin destination
                        (ByFunction penalized_time) = Inl e)"
            by (rule diverse_loop_restores [OF clean4])
          then show ?thesis unfolding R by simp
        qed
      qed
    qed
  qed
qed

lemma no_temp_penalty_left:
  assumes clean: "\<forall>e d. edges (graph self) e = Some d \<longrightarrow> attrs d ''temp_penalty'' = None"
    and returns: "\<forall>g e. nx g origin destination (ByFunction penalized_time) \<noteq> Inl e"
  shows "\<forall>e d. edges (graph (fst (snd (generate_k_routes nx solver self r origin destination c k)))) e
                  = Some d \<longrightarrow> attrs d ''temp_penalty'' = None"
proof -
  let ?R = "fst (snd (generate_k_routes nx solver self r origin destination c k))"
  have "?R = self \<or> ?R = self\<lparr>graph := assign_risk_weights c (graph self)\<rparr>"
    using generate_k_routes_restores [OF clean, of nx solver r origin destination c k] returns
    by blast
  then show ?thesis
  proof
    assume "?R = self"
    then show ?thesis using clean by simp
  next
    assume "?R = self\<lparr>graph := assign_risk_weights c (graph self)\<rparr>"
    then show ?thesis using assign_risk_weights_clean [OF clean, of c] by simp
  qed
qed

text \<open>
  Claim C6, as the code has it. \<open>shortest_distance\<close>, \<open>shortest_time\<close> and the CVaR
  \<open>optimize\<close> return the router, and with it the graph, as they found it, whether they
  return a result or raise. \<open>mean_risk\<close> stores \<open>risk_weight\<close> on every edge and changes
  no other attribute. The route portfolio generation changes no attribute other than
  \<open>risk_weight\<close> and \<open>temp_penalty\<close>. On a graph whose edges carry no
  \<open>temp_penalty\<close>, every round of the padding loop whose penalised search returns
  removes the penalty it added: the padding loop hands back the router it was given, and
  the portfolio generation hands back the router it was given or that router with the
  risk weights of \<open>mean_risk\<close>, unless a penalised search raised on the penalised graph
  that is then left behind. When the penalised search never raises, no edge carries a
  \<open>temp_penalty\<close> afterwards.
\<close>

theorem solver_operations_frame:
  "fst (snd (shortest_distance nx self r origin destination)) = self
   \<and> fst (snd (shortest_time nx self r origin destination)) = self
   \<and> fst (snd (optimize nx solver self r origin destination c wt wr)) = self
   \<and> same_except {''risk_weight''} (graph self)
        (graph (fst (snd (mean_risk_route nx self r origin destination c))))
   \<and> (\<forall>e d. edges (graph self) e = Some d \<longrightarrow>
          edges (graph (fst (snd (mean_risk_route nx self r origin destination c)))) e
            = Some (set_risk_weight c d))
   \<and> same_except {''risk_weight'', ''temp_penalty''} (graph self)
        (graph (fst (snd (generate_k_routes nx solver self r origin destination c k))))
   \<and> ((\<forall>e d. edges (graph self) e = Some d \<longrightarrow> attrs d ''temp_penalty'' = None) \<longrightarrow>
          (\<forall>pes. remove_temp_penalty pes (add_temp_penalty pes (graph self)) = graph self)
        \<and> (fst (snd (diverse_loop nx self r origin destination c k routes)) = self
           \<or> (\<exists>pes e.
                 fst (snd (diverse_loop nx self r origin destination c k routes))
                   = self\<lparr>graph := add_temp_penalty pes (graph self)\<rparr>
               \<and> nx (add_temp_penalty pes (graph self)) origin destination
                     (ByFunction penalized_time) = Inl e))
        \<and> (fst (snd (generate_k_routes nx solver self r origin destination c k)) = self
           \<or> fst (snd (generate_k_routes nx solver self r origin destination c k))
               = self\<lparr>graph := assign_risk_weights c (graph self)\<rparr>
           \<or> (\<exists>pes e.
                 fst (snd (generate_k_routes nx solver self r origin destination c k))
                   = self\<lparr>graph := add_temp_penalty pes (assign_risk_weights c (graph self))\<rparr>
               \<and> nx (add_temp_penalty pes (assign_risk_weights c (graph self)))
                     origin destination (ByFunction penalized_time) = Inl e))
        \<and> ((\<forall>g e. nx g origin destination (ByFunction penalized_time) \<noteq> Inl e) \<longrightarrow>
              (\<forall>e d. edges (graph (fst (snd (generate_k_routes nx solver self r origin
                                                   destination c k)))) e = Some d
                    \<longrightarrow> attrs d ''temp_penalty'' = None)))"
proof (intro conjI impI)
  show "fst (snd (shortest_distance nx self r origin destination)) = self"
    by (rule shortest_distance_router)
  show "fst (snd (shortest_time nx self r origin destination)) = self"
    by (rule shortest_time_router)
  show "fst (snd (optimize nx solver self r origin destination c wt wr)) = self"
    by (rule optimize_router)
  show "same_except {''risk_weight''} (graph self)
          (graph (fst (snd (mean_risk_route nx self r origin destination c))))"
    by (simp add: mean_risk_route_router same_except_assign_risk_weights)
  show "\<forall>e d. edges (graph self) e = Some d \<longrightarrow>
          edges (graph (fst (snd (mean_risk_route nx self r origin destination c)))) e
            = Some (set_risk_weight c d)"
    using mean_risk_route_edges by blast
  show "same_except {''risk_weight'', ''temp_penalty''} (graph self)
          (graph (fst (snd (generate_k_routes nx solver self r origin destination c k))))"
    by (rule generate_k_routes_graph)
next
  assume clean: "\<forall>e d. edges (graph self) e = Some d \<longrightarrow> attrs d ''temp_penalty'' = None"
  show "\<forall>pes. remove_temp_penalty pes (add_temp_penalty pes (graph self)) = graph self"
    using temp_penalty_reverted [OF clean] by blast
  show "fst (snd (diverse_loop nx self r origin destination c k routes)) = self
      \<or> (\<exists>pes e.
            fst (snd (diverse_loop nx self r origin destination c k routes))
              = self\<lparr>graph := add_temp_penalty pes (graph self)\<rparr>
          \<and> nx (add_temp_penalty pes (graph self)) origin destination
                (ByFunction penalized_time) = Inl e)"
    by (rule diverse_loop_restores [OF clean])
  show "fst (snd (generate_k_routes nx solver self r origin destination c k)) = self
      \<or> fst (snd (generate_k_routes nx solver self r origin destination c k))
          = self\<lparr>graph := assign_risk_weights c (graph self)\<rparr>
      \<or> (\<exists>pes e.
            fst (snd (generate_k_routes nx solver self r origin destination c k))
              = self\<lparr>graph := add_temp_penalty pes (assign_risk_weights c (graph self))\<rparr>
          \<and> nx (add_temp_penalty pes (assign_risk_weights c (graph self)))
                origin destination (ByFunction penalized_time) = Inl e)"
    by (rule generate_k_routes_restores [OF clean])
next
  assume clean: "\<forall>e d. edges (graph self) e = Some d \<longrightarrow> attrs d ''temp_penalty'' = None"
    and returns: "\<forall>g e. nx g origin destination (ByFunction penalized_time) \<noteq> Inl e"
  show "\<forall>e d. edges (graph (fst (snd (generate_k_routes nx solver self r origin
                                         destination c k)))) e = Some d
              \<longrightarrow> attrs d ''temp_penalty'' = None"
    using clean returns by (rule no_temp_penalty_left)
qed

lemma simple_graph_clean:
  "\<forall>e d. edges simple_graph e = Some d \<longrightarrow> attrs d ''temp_penalty'' = None"
  by (auto simp: simple_graph_def split: if_splits)

lemma direct_search_finds_first_edge:
  "direct_search (add_temp_penalty pes simple_graph) 0 1 w = Inr [0, 1]"
  "direct_search (add_temp_penalty pes (assign_risk_weights c simple_graph)) 0 1 w = Inr [0, 1]"
  by (simp_all add: direct_search_def add_temp_penalty_def assign_risk_weights_def
      simple_graph_def)

theorem solver_operations_frame_witness:
  "fst (snd (shortest_time direct_search
        \<lparr>graph = simple_graph, alpha = 95/100, num_scenarios = 10\<rparr> fixed_rng 0 3))
     = \<lparr>graph = simple_graph, alpha = 95/100, num_scenarios = 10\<rparr>
   \<and> same_except {''risk_weight''} simple_graph
        (graph (fst (snd (mean_risk_route direct_search
           \<lparr>graph = simple_graph, alpha = 95/100, num_scenarios = 10\<rparr> fixed_rng 0 3 7))))
   \<and> edges (graph (fst (snd (mean_risk_route direct_search
           \<lparr>graph = simple_graph, alpha = 95/100, num_scenarios = 10\<rparr> fixed_rng 0 3 7)))) (0, 1)
       = Some (set_risk_weight 7 (the (edges simple_graph (0, 1))))
   \<and> remove_temp_penalty [(0, 1), (1, 2)] (add_temp_penalty [(0, 1), (1, 2)] simple_graph)
       = simple_graph
   \<and> fst (snd (diverse_loop direct_search
        \<lparr>graph = simple_graph, alpha = 95/100, num_scenarios = 10\<rparr> fixed_rng 0 1 7 2
        [(empty_result ''cvar'')\<lparr>node_path := [0, 1]\<rparr>]))
     = \<lparr>graph = simple_graph, alpha = 95/100, num_scenarios = 10\<rparr>
   \<and> (fst (snd (generate_k_routes direct_search (\<lambda>g sc s t c wt wr al. SolveRaised)
          \<lparr>graph = simple_graph, alpha = 95/100, num_scenarios = 10\<rparr> fixed_rng 0 1 7 5))
        = \<lparr>graph = simple_graph, alpha = 95/100, num_scenarios = 10\<rparr>
      \<or> fst (snd (generate_k_routes direct_search (\<lambda>g sc s t c wt wr al. SolveRaised)
          \<lparr>graph = simple_graph, alpha = 95/100, num_scenarios = 10\<rparr> fixed_rng 0 1 7 5))
        = \<lparr>graph = assign_risk_weights 7 simple_graph, alpha = 95/100, num_scenarios = 10\<rparr>)
   \<and> attrs (the (edges (graph (fst (snd (generate_k_routes (\<lambda>g s t w. Inr [s, t])
                  (\<lambda>g sc s t c wt wr al. SolveRaised)
                  \<lparr>graph = simple_graph, alpha = 95/100, num_scenarios = 10\<rparr>
                  fixed_rng 0 1 7 5)))) (0, 1))) ''temp_penalty'' = None"
proof -
  let ?self = "\<lparr>graph = simple_graph, alpha = 95/100, num_scenarios = 10\<rparr>"
  let ?solver = "\<lambda>g sc s t c wt wr al. SolveRaised"
  have e01: "edges (graph ?self) (0, 1) = Some (the (edges simple_graph (0, 1)))"
    by (simp add: simple_graph_def)
  have clean: "\<forall>e d. edges (graph ?self) e = Some d \<longrightarrow> attrs d ''temp_penalty'' = None"
    using simple_graph_clean by simp
  have found: "\<And>pes e. direct_search (add_temp_penalty pes (graph ?self)) 0 1
                  (ByFunction penalized_time) \<noteq> Inl e"
    by (simp add: direct_search_finds_first_edge)
  have found4: "\<And>pes e. direct_search (add_temp_penalty pes (assign_risk_weights 7 (graph ?self)))
                  0 1 (ByFunction penalized_time) \<noteq> Inl e"
    by (simp add: direct_search_finds_first_edge)
  have returns: "\<forall>g e. (\<lambda>g s t w. Inr [s, t]) g (0::int) (1::int) (ByFunction penalized_time)
                   \<noteq> (Inl e :: py_error + node list)"
    by simp
  note far = solver_operations_frame
      [of direct_search ?self fixed_rng 0 3 ?solver 7 "1/2" "1/2" 5 "[]"]
  note near = solver_operations_frame
      [of direct_search ?self fixed_rng 0 1 ?solver 7 "1/2" "1/2" 2
          "[(empty_result ''cvar'')\<lparr>node_path := [0, 1]\<rparr>]"]
  note port = solver_operations_frame
      [of direct_search ?self fixed_rng 0 1 ?solver 7 "1/2" "1/2" 5 "[]"]
  note always = solver_operations_frame
      [of "\<lambda>g s t w. Inr [s, t]" ?self fixed_rng 0 1 ?solver 7 "1/2" "1/2" 5 "[]"]
  have c1: "fst (snd (shortest_time direct_search ?self fixed_rng 0 3)) = ?self"
    using far by blast
  have c2: "same_except {''risk_weight''} simple_graph
              (graph (fst (snd (mean_risk_route direct_search ?self fixed_rng 0 3 7))))"
    using far by simp
  have c3: "edges (graph (fst (snd (mean_risk_route direct_search ?self fixed_rng 0 3 7)))) (0, 1)
              = Some (set_risk_weight 7 (the (edges simple_graph (0, 1))))"
    using far e01 by blast
  have c4: "remove_temp_penalty [(0, 1), (1, 2)] (add_temp_penalty [(0, 1), (1, 2)] simple_graph)
              = simple_graph"
    using far clean by simp
  have c5: "fst (snd (diverse_loop direct_search ?self fixed_rng 0 1 7 2
                        [(empty_result ''cvar'')\<lparr>node_path := [0, 1]\<rparr>])) = ?self"
    using near clean found by blast
  have "fst (snd (generate_k_routes direct_search ?solver ?self fixed_rng 0 1 7 5)) = ?self
      \<or> fst (snd (generate_k_routes direct_search ?solver ?self fixed_rng 0 1 7 5))
          = ?self\<lparr>graph := assign_risk_weights 7 (graph ?self)\<rparr>"
    using port clean found4 by blast
  then have c6: "fst (snd (generate_k_routes direct_search ?solver ?self fixed_rng 0 1 7 5)) = ?self
      \<or> fst (snd (generate_k_routes direct_search ?solver ?self fixed_rng 0 1 7 5))
          = \<lparr>graph = assign_risk_weights 7 simple_graph, alpha = 95/100, num_scenarios = 10\<rparr>"
    by simp
  let ?after = "graph (fst (snd (generate_k_routes (\<lambda>g s t w. Inr [s, t]) ?solver
                                   ?self fixed_rng 0 1 7 5)))"
  have none_left: "\<forall>e d. edges ?after e = Some d \<longrightarrow> attrs d ''temp_penalty'' = None"
    using always clean returns by blast
  have "same_except {''risk_weight'', ''temp_penalty''} (graph ?self) ?after"
    using always by blast
  then have "(edges ?after (0, 1) = None) = (edges (graph ?self) (0, 1) = None)"
    by (rule same_except_edges)
  then obtain d where "edges ?after (0, 1) = Some d"
    using e01 by auto
  then have c7: "attrs (the (edges ?after (0, 1))) ''temp_penalty'' = None"
    using none_left by auto
  show ?thesis
    using c1 c2 c3 c4 c5 c6 c7 by (intro conjI)
qed

text \<open>
  On the test graph no edge has a \<open>risk_weight\<close>; after \<open>mean_risk(3, 0, 7.0)\<close>,
  which finds no path, the edge \<open>(0, 1)\<close> carries \<open>risk_weight = 0.14\<close>.
\<close>

theorem mean_risk_writes_risk_weight:
  "attrs (the (edges simple_graph (0, 1))) ''risk_weight'' = None
   \<and> attrs (the (edges (graph (fst (snd (mean_risk_route direct_search
         \<lparr>graph = simple_graph, alpha = 95/100, num_scenarios = 10\<rparr> fixed_rng 3 0 7)))) (0, 1)))
        ''risk_weight'' = Some (14/100)
   \<and> graph (fst (snd (mean_risk_route direct_search
         \<lparr>graph = simple_graph, alpha = 95/100, num_scenarios = 10\<rparr> fixed_rng 3 0 7)))
       \<noteq> simple_graph"
proof -
  let ?self = "\<lparr>graph = simple_graph, alpha = 95/100, num_scenarios = 10\<rparr>"
  let ?g = "graph (fst (snd (mean_risk_route direct_search ?self fixed_rng 3 0 7)))"
  have before: "attrs (the (edges simple_graph (0, 1))) ''risk_weight'' = None"
    by (simp add: simple_graph_def)
  have after: "attrs (the (edges ?g (0, 1))) ''risk_weight'' = Some (14/100)"
    by (simp add: mean_risk_route_router assign_risk_weights_def set_risk_weight_def
        get_attr_def simple_graph_def)
  have "?g \<noteq> simple_graph" using before after by auto
  then show ?thesis using before after by simp
qed

end
